theory Spec2Isabelle
  imports Main "HOL-Library.Word"
begin

section \<open>The ECS150 file system of libfs/fs.c\<close>

text \<open>
  A shallow embedding of \<^verbatim>\<open>src/libfs/fs.c\<close>. The C globals \<^verbatim>\<open>super\<close>, \<^verbatim>\<open>fat\<close>,
  \<^verbatim>\<open>root\<close> and \<^verbatim>\<open>files\<close>, together with the block device behind \<^verbatim>\<open>disk.h\<close>, form one
  state record that every operation takes and returns. An operation returns the C
  \<^verbatim>\<open>int\<close> result and the new state. Where the C code indexes an array outside its
  allocation the behaviour is undefined; such an operation returns \<open>None\<close>.
\<close>

subsection \<open>Machine types and constants\<close>

type_synonym byte = "8 word"
type_synonym u16 = "16 word"
type_synonym u32 = "32 word"

text \<open>
  Modelled from the spec: the constants of \<^verbatim>\<open>fs.h\<close> and \<^verbatim>\<open>disk.h\<close>, which are not
  among the sources. The spec gives file names of up to 16 bytes, a root directory of
  128 entries, 32 open-file handles and blocks of 4096 bytes.
\<close>

definition FS_FILENAME_LEN :: nat where
  "FS_FILENAME_LEN = 16"

definition FS_FILE_MAX_COUNT :: nat where
  "FS_FILE_MAX_COUNT = 128"

definition FS_OPEN_MAX_COUNT :: nat where
  "FS_OPEN_MAX_COUNT = 32"

definition BLOCK_SIZE :: nat where
  "BLOCK_SIZE = 4096"

text \<open>
  \<^verbatim>\<open>size_t\<close> is 64 bits wide; a \<^verbatim>\<open>size_t\<close> returned as \<^verbatim>\<open>int\<close> keeps its low 32 bits,
  read as two's complement.
\<close>

definition SIZE_MAX_plus_1 :: nat where
  "SIZE_MAX_plus_1 = 2 ^ 64"

definition int_of_size_t :: "nat \<Rightarrow> int" where
  "int_of_size_t n = sint (word_of_nat n :: 32 word)"

subsection \<open>The structs\<close>

record SuperBlock =
  signature :: "byte list"
  total_blocks :: u16
  root_index :: u16
  data_index :: u16
  data_blocks :: u16
  fat_blocks :: byte

text \<open>
  \<^verbatim>\<open>struct Entry\<close>: the fields \<^verbatim>\<open>filename\<close>, \<^verbatim>\<open>file_size\<close> and \<^verbatim>\<open>data_index\<close>; the
  prefix keeps them apart from the fields of the other structs. The padding carries no
  information and is left out.
\<close>

record Entry =
  entry_filename :: "byte list"
  entry_file_size :: u32
  entry_data_index :: u16

text \<open>\<^verbatim>\<open>struct File\<close>: one slot of the open-file table.\<close>

record File =
  file_filename :: "byte list"
  file_offset :: nat

text \<open>
  Modelled from the spec: the block device of \<^verbatim>\<open>disk.h\<close>, whose implementation is not
  among the sources. \<open>dev_count\<close> is what \<^verbatim>\<open>block_disk_count\<close> returns; \<open>dev_blocks i\<close>
  is the content \<^verbatim>\<open>block_read\<close> delivers for block \<open>i\<close>, or \<open>None\<close> when the read
  returns -1; \<^verbatim>\<open>block_write\<close> to block \<open>i\<close> succeeds where \<open>dev_writable i\<close> holds and
  returns -1 elsewhere. A device with no disk open fails every read and write.
\<close>

record device =
  dev_count :: int
  dev_blocks :: "nat \<Rightarrow> byte list option"
  dev_writable :: "nat \<Rightarrow> bool"

definition block_read :: "device \<Rightarrow> nat \<Rightarrow> byte list option" where
  "block_read d i = dev_blocks d i"

definition block_write :: "device \<Rightarrow> nat \<Rightarrow> byte list \<Rightarrow> device option" where
  "block_write d i buf =
     (if dev_writable d i then Some (d\<lparr>dev_blocks := (dev_blocks d)(i \<mapsto> buf)\<rparr>) else None)"

text \<open>
  The globals: \<^verbatim>\<open>super\<close>, \<^verbatim>\<open>fat.flat\<close> (its length is the number of entries
  allocated), \<^verbatim>\<open>root.entry\<close>, \<^verbatim>\<open>files.open\<close>, \<^verbatim>\<open>files.file\<close>, and the device.
  The lists stand for the C arrays: \<open>root\<close> has \<^verbatim>\<open>FS_FILE_MAX_COUNT\<close> entries,
  \<open>files_file\<close> has \<^verbatim>\<open>FS_OPEN_MAX_COUNT\<close> slots, and every file name field has
  \<^verbatim>\<open>FS_FILENAME_LEN\<close> bytes, so that \<^verbatim>\<open>memcmp\<close> over a field is equality of the lists.
\<close>

record fs_state =
  super :: SuperBlock
  fat :: "u16 list"
  root :: "Entry list"
  files_open :: int
  files_file :: "File list"
  disk :: device

subsection \<open>Names and searches\<close>

text \<open>
  A file name argument is the C string without its terminator. \<open>name16\<close> is the
  16-byte image of the name: what \<^verbatim>\<open>strncpy(dst, filename, FS_FILENAME_LEN)\<close> stores
  (the name, then zero bytes), and what \<^verbatim>\<open>memcmp(..., filename, FS_FILENAME_LEN)\<close> reads
  from a caller's buffer that is zero after the terminator.
\<close>

definition name16 :: "string \<Rightarrow> byte list" where
  "name16 filename =
     take FS_FILENAME_LEN (map of_char filename @ replicate FS_FILENAME_LEN 0)"

text \<open>
  The loops \<^verbatim>\<open>for (i = 0; i < N; i++) if (P(a[i])) { ...; break; }\<close>: the lowest index
  whose element satisfies the test.
\<close>

fun first_index :: "('a \<Rightarrow> bool) \<Rightarrow> 'a list \<Rightarrow> nat option" where
  "first_index P [] = None"
| "first_index P (x # xs) =
     (if P x then Some 0 else map_option Suc (first_index P xs))"

text \<open>What \<^verbatim>\<open>memset(&root.entry[i], 0, sizeof(struct Entry))\<close> leaves.\<close>

definition zero_entry :: Entry where
  "zero_entry =
     \<lparr>entry_filename = replicate FS_FILENAME_LEN 0, entry_file_size = 0, entry_data_index = 0\<rparr>"

text \<open>What \<^verbatim>\<open>memset(&files.file[fd], 0, sizeof(struct File))\<close> leaves.\<close>

definition zero_file :: File where
  "zero_file = \<lparr>file_filename = replicate FS_FILENAME_LEN 0, file_offset = 0\<rparr>"

subsection \<open>Directory management\<close>

text \<open>
  \<^verbatim>\<open>fs_create\<close>: the length check, the check of \<^verbatim>\<open>files.open\<close> against
  \<^verbatim>\<open>FS_FILE_MAX_COUNT\<close>, the duplicate check, the first free directory slot, the scan
  of the FAT (the first free entry is marked \<open>0xFFFF\<close> and the entry's \<^verbatim>\<open>data_index\<close>
  is set to \<open>0xFFFF\<close>; when no entry is free the \<^verbatim>\<open>data_index\<close> of the slot stays),
  and \<^verbatim>\<open>files.open++\<close>.
\<close>

definition fs_create :: "fs_state \<Rightarrow> string \<Rightarrow> int \<times> fs_state" where
  "fs_create st filename =
     (if length filename \<ge> FS_FILENAME_LEN then (-1, st)
      else if files_open st = int FS_FILE_MAX_COUNT then (-1, st)
      else if first_index (\<lambda>e. entry_filename e = name16 filename) (root st) \<noteq> None
        then (-1, st)
      else
        (case first_index (\<lambda>e. entry_filename e ! 0 = 0) (root st) of
          None \<Rightarrow> (-1, st)
        | Some i \<Rightarrow>
            (let new_entry =
                   (root st ! i)\<lparr>entry_filename := name16 filename, entry_file_size := 0\<rparr>
             in
               (case first_index (\<lambda>v. v = 0)
                       (take (unat (data_blocks (super st))) (fat st)) of
                 None \<Rightarrow>
                   (0, st\<lparr>root := (root st)[i := new_entry],
                          files_open := files_open st + 1\<rparr>)
               | Some k \<Rightarrow>
                   (0, st\<lparr>fat := (fat st)[k := 0xFFFF],
                          root := (root st)[i := new_entry\<lparr>entry_data_index := 0xFFFF\<rparr>],
                          files_open := files_open st + 1\<rparr>)))))"

text \<open>
  \<^verbatim>\<open>fs_delete\<close>: the first entry whose name matches; with \<^verbatim>\<open>files.open == 0\<close> the
  statement \<^verbatim>\<open>fat.flat[root.entry[i].data_index] = 0x0000\<close> and the \<^verbatim>\<open>memset\<close> of the
  entry. The FAT holds \<open>length (fat st)\<close> entries; a \<^verbatim>\<open>data_index\<close> outside it makes the
  store undefined behaviour (\<open>None\<close>).
\<close>

definition fs_delete :: "fs_state \<Rightarrow> string \<Rightarrow> (int \<times> fs_state) option" where
  "fs_delete st filename =
     (case first_index (\<lambda>e. entry_filename e = name16 filename) (root st) of
       None \<Rightarrow> Some (-1, st)
     | Some i \<Rightarrow>
         if files_open st = 0 then
           (let k = unat (entry_data_index (root st ! i)) in
              if k < length (fat st)
              then Some (0, st\<lparr>fat := (fat st)[k := 0], root := (root st)[i := zero_entry]\<rparr>)
              else None)
         else Some (-1, st))"

subsection \<open>The open-file table\<close>

text \<open>
  \<^verbatim>\<open>fs_open\<close>; the argument is \<open>None\<close> for a \<^verbatim>\<open>NULL\<close> pointer. Every successful path
  ends in \<^verbatim>\<open>return 0\<close>.
\<close>

definition fs_open :: "fs_state \<Rightarrow> string option \<Rightarrow> int \<times> fs_state" where
  "fs_open st filename_ptr =
     (if files_open st = int FS_OPEN_MAX_COUNT then (-1, st)
      else
        (case filename_ptr of
          None \<Rightarrow> (-1, st)
        | Some filename \<Rightarrow>
            (case first_index (\<lambda>e. entry_filename e = name16 filename) (root st) of
              None \<Rightarrow> (-1, st)
            | Some i \<Rightarrow>
                (case first_index (\<lambda>f. file_filename f ! 0 = 0) (files_file st) of
                  None \<Rightarrow> (-1, st)
                | Some j \<Rightarrow>
                    (0, st\<lparr>files_file :=
                             (files_file st)
                               [j := \<lparr>file_filename = name16 filename, file_offset = 0\<rparr>],
                           files_open := files_open st + 1\<rparr>)))))"

text \<open>The two descriptor checks that open \<^verbatim>\<open>fs_close\<close>, \<^verbatim>\<open>fs_lseek\<close>, \<^verbatim>\<open>fs_write\<close>
  and \<^verbatim>\<open>fs_read\<close>: out of bounds, or a slot whose name starts with a zero byte.\<close>

definition bad_fd :: "fs_state \<Rightarrow> int \<Rightarrow> bool" where
  "bad_fd st fd =
     (if fd < 0 \<or> fd \<ge> int FS_OPEN_MAX_COUNT then True
      else file_filename (files_file st ! nat fd) ! 0 = 0)"

definition fs_close :: "fs_state \<Rightarrow> int \<Rightarrow> int \<times> fs_state" where
  "fs_close st fd =
     (if bad_fd st fd then (-1, st)
      else (0, st\<lparr>files_file := (files_file st)[nat fd := zero_file],
                 files_open := files_open st - 1\<rparr>))"

text \<open>
  \<^verbatim>\<open>fs_lseek\<close>: the offset is compared with \<^verbatim>\<open>root.entry[fd].file_size\<close>, the entry at
  the descriptor's own index.
\<close>

definition fs_lseek :: "fs_state \<Rightarrow> int \<Rightarrow> nat \<Rightarrow> int \<times> fs_state" where
  "fs_lseek st fd offset =
     (if bad_fd st fd then (-1, st)
      else if offset > unat (entry_file_size (root st ! nat fd)) then (-1, st)
      else (0, st\<lparr>files_file :=
                   (files_file st)[nat fd := (files_file st ! nat fd)\<lparr>file_offset := offset\<rparr>]\<rparr>))"

subsection \<open>The I/O engine\<close>

text \<open>
  The lookup loop of \<^verbatim>\<open>fs_write\<close> and \<^verbatim>\<open>fs_read\<close>: the first directory entry whose
  16 name bytes equal those of the handle.
\<close>

definition find_entry :: "fs_state \<Rightarrow> int \<Rightarrow> nat option" where
  "find_entry st fd =
     first_index (\<lambda>e. entry_filename e = file_filename (files_file st ! nat fd)) (root st)"

text \<open>\<^verbatim>\<open>memcpy(buffer + block_offset, buf, write_size)\<close> on the scratch block.\<close>

definition overlay :: "byte list \<Rightarrow> nat \<Rightarrow> byte list \<Rightarrow> byte list" where
  "overlay buffer block_offset src =
     take block_offset buffer @ src @ drop (block_offset + length src) buffer"

text \<open>
  The \<^verbatim>\<open>while (writing > 0)\<close> loop of \<^verbatim>\<open>fs_write\<close>. \<open>sdi\<close> is \<^verbatim>\<open>super.data_index\<close>,
  \<open>edi\<close> is \<^verbatim>\<open>entry->data_index\<close>, \<open>buf\<close> holds the bytes of the caller's buffer from
  the current position on (the caller provides at least \<open>writing\<close> of them). The result
  is \<open>False\<close> when a \<^verbatim>\<open>block_read\<close> or \<^verbatim>\<open>block_write\<close> returned -1 (the function then
  returns -1 at once), with the device as the writes done so far left it, and the offset.
\<close>

function write_loop ::
  "device \<Rightarrow> nat \<Rightarrow> nat \<Rightarrow> nat \<Rightarrow> byte list \<Rightarrow> nat \<Rightarrow> bool \<times> device \<times> nat" where
  "write_loop d sdi edi offset buf writing =
     (if writing = 0 then (True, d, offset)
      else
        (let block_index = edi + offset div BLOCK_SIZE;
             block_offset = offset mod BLOCK_SIZE;
             write_size =
               (if BLOCK_SIZE - block_offset > writing then writing
                else BLOCK_SIZE - block_offset)
         in
           (case block_read d (sdi + block_index) of
             None \<Rightarrow> (False, d, offset)
           | Some buffer \<Rightarrow>
               (case block_write d (sdi + block_index)
                       (overlay buffer block_offset (take write_size buf)) of
                 None \<Rightarrow> (False, d, offset)
               | Some d' \<Rightarrow>
                   write_loop d' sdi edi (offset + write_size) (drop write_size buf)
                     (writing - write_size)))))"
  by pat_completeness auto
termination
  by (relation "measure (\<lambda>(d, sdi, edi, offset, buf, writing). writing)")
    (auto simp: BLOCK_SIZE_def)

text \<open>
  \<^verbatim>\<open>fs_write\<close>. On a failed block transfer it returns -1 before the handle's offset
  and the file size are updated. Otherwise it returns \<^verbatim>\<open>count\<close>; the file size, a
  \<^verbatim>\<open>uint32_t\<close>, takes the low 32 bits of the offset.
\<close>

definition fs_write :: "fs_state \<Rightarrow> int \<Rightarrow> byte list \<Rightarrow> nat \<Rightarrow> int \<times> fs_state" where
  "fs_write st fd buf count =
     (if bad_fd st fd then (-1, st)
      else
        (case find_entry st fd of
          None \<Rightarrow> (-1, st)
        | Some i \<Rightarrow>
            (let entry = root st ! i;
                 handle = files_file st ! nat fd
             in
               (case write_loop (disk st) (unat (data_index (super st)))
                       (unat (entry_data_index entry)) (file_offset handle) buf count of
                 (False, d', offset) \<Rightarrow> (-1, st\<lparr>disk := d'\<rparr>)
               | (True, d', offset) \<Rightarrow>
                   (int_of_size_t count,
                    st\<lparr>disk := d',
                       files_file :=
                         (files_file st)[nat fd := handle\<lparr>file_offset := offset\<rparr>],
                       root :=
                         (if offset > unat (entry_file_size entry)
                          then (root st)[i := entry\<lparr>entry_file_size := word_of_nat offset\<rparr>]
                          else root st)\<rparr>)))))"

text \<open>
  The \<^verbatim>\<open>while (reading > 0)\<close> loop of \<^verbatim>\<open>fs_read\<close>. \<open>out\<close> collects the bytes copied
  to the caller's buffer. The result carries the final \<^verbatim>\<open>offset\<close> and \<^verbatim>\<open>reading\<close>.
\<close>

function read_loop ::
  "device \<Rightarrow> nat \<Rightarrow> nat \<Rightarrow> nat \<Rightarrow> nat \<Rightarrow> byte list \<Rightarrow> bool \<times> nat \<times> nat \<times> byte list" where
  "read_loop d sdi edi offset reading out =
     (if reading = 0 then (True, offset, reading, out)
      else
        (let block_index = edi + offset div BLOCK_SIZE;
             block_offset = offset mod BLOCK_SIZE;
             read_size =
               (if BLOCK_SIZE - block_offset > reading then reading
                else BLOCK_SIZE - block_offset)
         in
           (case block_read d (sdi + block_index) of
             None \<Rightarrow> (False, offset, reading, out)
           | Some buffer \<Rightarrow>
               read_loop d sdi edi (offset + read_size) (reading - read_size)
                 (out @ take read_size (drop block_offset buffer)))))"
  by pat_completeness auto
termination
  by (relation "measure (\<lambda>(d, sdi, edi, offset, reading, out). reading)")
    (auto simp: BLOCK_SIZE_def)

text \<open>
  \<^verbatim>\<open>fs_read\<close>: the result, the bytes copied to the caller's buffer, and the state.
  The sum \<^verbatim>\<open>offset + count\<close> is a \<^verbatim>\<open>size_t\<close> and wraps. The value returned after the
  loop is \<^verbatim>\<open>count - reading\<close>.
\<close>

definition fs_read :: "fs_state \<Rightarrow> int \<Rightarrow> nat \<Rightarrow> int \<times> byte list \<times> fs_state" where
  "fs_read st fd count =
     (if bad_fd st fd then (-1, [], st)
      else
        (case find_entry st fd of
          None \<Rightarrow> (-1, [], st)
        | Some i \<Rightarrow>
            (let entry = root st ! i;
                 handle = files_file st ! nat fd;
                 offset = file_offset handle
             in
               if offset \<ge> unat (entry_file_size entry) then (0, [], st)
               else
                 (let reading =
                        (if (offset + count) mod SIZE_MAX_plus_1 > unat (entry_file_size entry)
                         then unat (entry_file_size entry) - offset
                         else count)
                  in
                    (case read_loop (disk st) (unat (data_index (super st)))
                            (unat (entry_data_index entry)) offset reading [] of
                      (False, offset', reading', out) \<Rightarrow> (-1, out, st)
                    | (True, offset', reading', out) \<Rightarrow>
                        (int_of_size_t (count - reading'), out,
                         st\<lparr>files_file :=
                              (files_file st)
                                [nat fd := handle\<lparr>file_offset := offset'\<rparr>]\<rparr>))))))"

subsection \<open>Mount\<close>










definition ECS150FS :: "byte list" where
  "ECS150FS = map of_char ''ECS150FS''"




subsection \<open>Example volumes\<close>

text \<open>
  A mounted empty volume of ten blocks: the superblock, one FAT block, the root
  directory and seven data blocks (scenario S1 of the specification). No file exists, no
  handle is open, and every block of the device can be read and written.
\<close>

definition dev10 :: device where
  "dev10 =
     \<lparr>dev_count = 10,
      dev_blocks = (\<lambda>i. if i < 10 then Some (replicate 4096 0) else None),
      dev_writable = (\<lambda>i. i < 10)\<rparr>"

definition vol_empty :: fs_state where
  "vol_empty =
     \<lparr>super = \<lparr>signature = ECS150FS, total_blocks = 10, root_index = 2,
                data_index = 3, data_blocks = 7, fat_blocks = 1\<rparr>,
      fat = [0xFFFF, 0, 0, 0, 0, 0, 0],
      root = replicate 128 zero_entry,
      files_open = 0,
      files_file = replicate 32 zero_file,
      disk = dev10\<rparr>"

text \<open>The volume after \<^verbatim>\<open>fs_create("x")\<close>.\<close>

definition entry_x :: Entry where
  "entry_x =
     \<lparr>entry_filename = name16 ''x'', entry_file_size = 0, entry_data_index = 0xFFFF\<rparr>"

definition vol_x :: fs_state where
  "vol_x =
     vol_empty\<lparr>fat := [0xFFFF, 0xFFFF, 0, 0, 0, 0, 0],
               root := entry_x # replicate 127 zero_entry,
               files_open := 1\<rparr>"

text \<open>
  The same volume with \<^verbatim>\<open>"x"\<close> opened once (slot 0) and twice (slots 0 and 1).
\<close>

definition handle_x :: File where
  "handle_x = \<lparr>file_filename = name16 ''x'', file_offset = 0\<rparr>"

definition vol_x_open :: fs_state where
  "vol_x_open = vol_x\<lparr>files_file := handle_x # replicate 31 zero_file, files_open := 2\<rparr>"

definition vol_x_open2 :: fs_state where
  "vol_x_open2 =
     vol_x\<lparr>files_file := handle_x # handle_x # replicate 30 zero_file, files_open := 3\<rparr>"

text \<open>
  A volume with two files, \<^verbatim>\<open>"a"\<close> (empty, directory entry 0) and \<^verbatim>\<open>"b"\<close> (100 bytes,
  directory entry 1). Handle 0 is open on \<^verbatim>\<open>"b"\<close>, handle 1 on \<^verbatim>\<open>"a"\<close>.
\<close>

definition entry_a :: Entry where
  "entry_a = \<lparr>entry_filename = name16 ''a'', entry_file_size = 0, entry_data_index = 0xFFFF\<rparr>"

definition entry_b :: Entry where
  "entry_b = \<lparr>entry_filename = name16 ''b'', entry_file_size = 100, entry_data_index = 1\<rparr>"

definition vol_ab :: fs_state where
  "vol_ab =
     vol_empty\<lparr>fat := [0xFFFF, 0xFFFF, 0, 0, 0, 0, 0],
               root := entry_a # entry_b # replicate 126 zero_entry,
               files_file :=
                 \<lparr>file_filename = name16 ''b'', file_offset = 0\<rparr>
                 # \<lparr>file_filename = name16 ''a'', file_offset = 0\<rparr>
                 # replicate 30 zero_file,
               files_open := 2\<rparr>"

text \<open>
  A volume with the file \<^verbatim>\<open>"f"\<close> of five bytes, \<^verbatim>\<open>Hello\<close>, in data block 1 (block 4
  of the device), open on handle 0 at offset 0.
\<close>

definition entry_f :: Entry where
  "entry_f = \<lparr>entry_filename = name16 ''f'', entry_file_size = 5, entry_data_index = 1\<rparr>"

definition handle_f :: File where
  "handle_f = \<lparr>file_filename = name16 ''f'', file_offset = 0\<rparr>"

definition dev_hello :: device where
  "dev_hello =
     dev10\<lparr>dev_blocks := (dev_blocks dev10)(4 \<mapsto> map of_char ''Hello'' @ replicate 4091 0)\<rparr>"

definition vol_f :: fs_state where
  "vol_f =
     vol_empty\<lparr>fat := [0xFFFF, 0xFFFF, 0, 0, 0, 0, 0],
               root := entry_f # replicate 127 zero_entry,
               files_file := handle_f # replicate 31 zero_file,
               files_open := 1,
               disk := dev_hello\<rparr>"

subsection \<open>Free FAT entries, and the chain of the specification\<close>

text \<open>
  The count of free FAT entries, as the first loop of \<^verbatim>\<open>fs_info\<close> computes it: the
  entries equal to 0 among the first \<^verbatim>\<open>super.data_blocks\<close>.
\<close>

definition fat_free :: "fs_state \<Rightarrow> nat" where
  "fat_free st =
     length (filter (\<lambda>v. v = 0) (take (unat (data_blocks (super st))) (fat st)))"

text \<open>
  The chain as the specification words it (no function of \<^verbatim>\<open>fs.c\<close> computes it): the
  data-block indices visited when walking the FAT from a first index, each entry naming
  its successor, until the end-of-chain marker \<open>0xFFFF\<close>, in at most \<open>n\<close> hops. Chain
  position \<open>p\<close> of the specification is element \<open>p\<close> of this list.
\<close>

fun spec_chain :: "u16 list \<Rightarrow> nat \<Rightarrow> u16 \<Rightarrow> nat list" where
  "spec_chain f 0 i = []"
| "spec_chain f (Suc n) i =
     (if i = 0xFFFF \<or> unat i \<ge> length f then []
      else unat i # spec_chain f n (f ! unat i))"

text \<open>
  A volume whose file \<^verbatim>\<open>"f"\<close> of 8192 bytes has the chain 1, 3 (data block 2 is free).
  The device blocks of data blocks 2 and 3 are filled with \<open>0xAA\<close> and \<open>0xBB\<close>. In
  \<open>vol_chain\<close> no handle is open; in \<open>vol_chain_open\<close> handle 0 is open on the file at
  offset 4096. \<open>vol_chain_deleted\<close> is \<open>vol_chain\<close> after \<^verbatim>\<open>fs_delete("f")\<close>.
\<close>

definition entry_f2 :: Entry where
  "entry_f2 = \<lparr>entry_filename = name16 ''f'', entry_file_size = 8192, entry_data_index = 1\<rparr>"

definition dev_chain :: device where
  "dev_chain =
     \<lparr>dev_count = 10,
      dev_blocks =
        (\<lambda>i. if i = 5 then Some (replicate 4096 0xAA)
             else if i = 6 then Some (replicate 4096 0xBB)
             else if i < 10 then Some (replicate 4096 0) else None),
      dev_writable = (\<lambda>i. i < 10)\<rparr>"

definition vol_chain :: fs_state where
  "vol_chain =
     vol_empty\<lparr>fat := [0xFFFF, 3, 0, 0xFFFF, 0, 0, 0],
               root := entry_f2 # replicate 127 zero_entry,
               disk := dev_chain\<rparr>"

definition vol_chain_deleted :: fs_state where
  "vol_chain_deleted =
     vol_chain\<lparr>fat := [0xFFFF, 0, 0, 0xFFFF, 0, 0, 0], root := replicate 128 zero_entry\<rparr>"

definition vol_chain_open :: fs_state where
  "vol_chain_open =
     vol_chain\<lparr>files_file :=
                 \<lparr>file_filename = name16 ''f'', file_offset = 4096\<rparr> # replicate 31 zero_file,
               files_open := 1\<rparr>"

text \<open>
  A volume with exactly two free data blocks (5 and 6): the file \<^verbatim>\<open>"b"\<close> holds the chain
  1, 2, 3, 4, and the empty file \<^verbatim>\<open>"x"\<close>, as \<^verbatim>\<open>fs_create\<close> leaves it, is open on handle 0.
\<close>

definition entry_big :: Entry where
  "entry_big =
     \<lparr>entry_filename = name16 ''b'', entry_file_size = 16384, entry_data_index = 1\<rparr>"

definition vol_2free :: fs_state where
  "vol_2free =
     vol_empty\<lparr>fat := [0xFFFF, 2, 3, 4, 0xFFFF, 0, 0],
               root := entry_x # entry_big # replicate 126 zero_entry,
               files_file := handle_x # replicate 31 zero_file,
               files_open := 1\<rparr>"

text \<open>
  The file of \<open>vol_chain\<close> open on handle 0, at the last byte of its first block.
\<close>

definition vol_span :: fs_state where
  "vol_span =
     vol_chain\<lparr>files_file :=
                 \<lparr>file_filename = name16 ''f'', file_offset = 4095\<rparr> # replicate 31 zero_file,
               files_open := 1\<rparr>"


subsection \<open>Example devices for mount\<close>



















subsection \<open>The data region as one sequence of bytes\<close>

text \<open>
  The vocabulary in which the results of \<^verbatim>\<open>fs_read\<close> and \<^verbatim>\<open>fs_write\<close> are stated (the
  loops of the code are \<open>read_loop\<close> and \<open>write_loop\<close> above). The device is read from
  block \<open>B\<close> on as one sequence of bytes: byte \<open>q\<close> lies in block \<open>B + q div BLOCK_SIZE\<close>,
  at \<open>q mod BLOCK_SIZE\<close>. \<open>byte_at\<close> is that byte (0 when the block cannot be read),
  \<open>bytes_at\<close> the \<open>n\<close> bytes from \<open>off\<close> on.
\<close>

definition byte_at :: "device \<Rightarrow> nat \<Rightarrow> nat \<Rightarrow> byte" where
  "byte_at d B q =
     (case dev_blocks d (B + q div BLOCK_SIZE) of
       None \<Rightarrow> 0
     | Some b \<Rightarrow> b ! (q mod BLOCK_SIZE))"

definition bytes_at :: "device \<Rightarrow> nat \<Rightarrow> nat \<Rightarrow> nat \<Rightarrow> byte list" where
  "bytes_at d B off n = map (byte_at d B) [off..<off + n]"

text \<open>
  Every block that holds one of the bytes \<open>off .. off + n - 1\<close> can be read and holds
  \<open>BLOCK_SIZE\<close> bytes; every such block can be written.
\<close>

definition span_readable :: "device \<Rightarrow> nat \<Rightarrow> nat \<Rightarrow> nat \<Rightarrow> bool" where
  "span_readable d B off n =
     list_all (\<lambda>q. case dev_blocks d (B + q div BLOCK_SIZE) of
                     None \<Rightarrow> False
                   | Some b \<Rightarrow> length b = BLOCK_SIZE)
       [off..<off + n]"

definition span_writable :: "device \<Rightarrow> nat \<Rightarrow> nat \<Rightarrow> nat \<Rightarrow> bool" where
  "span_writable d B off n =
     list_all (\<lambda>q. dev_writable d (B + q div BLOCK_SIZE)) [off..<off + n]"

text \<open>
  The device after the bytes \<open>data\<close> have replaced the bytes \<open>off .. off + length data - 1\<close>
  of the sequence that starts at block \<open>B\<close>; every other byte is as before.
\<close>

definition written :: "device \<Rightarrow> nat \<Rightarrow> nat \<Rightarrow> byte list \<Rightarrow> device" where
  "written d B off data =
     d\<lparr>dev_blocks :=
         (\<lambda>blk. map_option
            (\<lambda>b. map (\<lambda>j. if B \<le> blk \<and> j < BLOCK_SIZE
                               \<and> off \<le> (blk - B) * BLOCK_SIZE + j
                               \<and> (blk - B) * BLOCK_SIZE + j < off + length data
                            then data ! ((blk - B) * BLOCK_SIZE + j - off)
                            else b ! j)
                   [0..<length b])
            (dev_blocks d blk))\<rparr>"


subsection \<open>Basic facts\<close>

lemma first_index_SomeD:
  "first_index P xs = Some i \<Longrightarrow> i < length xs \<and> P (xs ! i) \<and> (\<forall>j<i. \<not> P (xs ! j))"
proof (induction xs arbitrary: i)
  case Nil
  then show ?case by simp
next
  case (Cons x xs)
  show ?case
  proof (cases "P x")
    case True
    with Cons.prems show ?thesis by simp
  next
    case False
    with Cons.prems obtain k where k: "first_index P xs = Some k" "i = Suc k"
      by auto
    from Cons.IH [OF k(1)] False k(2) show ?thesis
      by (auto simp: nth_Cons split: nat.splits)
  qed
qed

lemma first_index_replicate:
  "first_index P (replicate n x) = (if n = 0 \<or> \<not> P x then None else Some 0)"
  by (induction n) auto

lemma list_update_replicate_0:
  "0 < n \<Longrightarrow> (replicate n x)[0 := y] = y # replicate (n - 1) x"
  by (cases n) auto

lemma replicate_numeral: "replicate (numeral k) x = x # replicate (pred_numeral k) x"
  by (simp add: numeral_eq_Suc)

subsection \<open>Facts about the example volumes\<close>

lemma name16_x: "name16 ''x'' = 120 # replicate 15 0"
  by (simp add: name16_def FS_FILENAME_LEN_def replicate_numeral)

lemma zero_name_neq_x: "replicate 16 0 \<noteq> name16 ''x''"
  by (simp add: name16_x replicate_numeral)

lemma create_x: "fs_create vol_empty ''x'' = (0, vol_x)"
  by (simp add: fs_create_def vol_empty_def vol_x_def entry_x_def first_index_replicate
      zero_entry_def zero_name_neq_x FS_FILENAME_LEN_def FS_FILE_MAX_COUNT_def
      list_update_replicate_0)

lemma open_vol_empty: "files_open vol_empty = 0"
  by (simp add: vol_empty_def)

lemma open_vol_x: "files_open vol_x = 1" "files_file vol_x = replicate 32 zero_file"
  by (simp_all add: vol_x_def vol_empty_def)

subsection \<open>Create and the open-file counter\<close>

lemma fs_create_success:
  assumes "fs_create st filename = (0, st')"
  shows "files_open st' = files_open st + 1" "files_file st' = files_file st"
proof -
  from assms obtain i where i: "first_index (\<lambda>e. entry_filename e ! 0 = 0) (root st) = Some i"
    by (cases "first_index (\<lambda>e. entry_filename e ! 0 = 0) (root st)")
      (simp_all add: fs_create_def split: if_splits)
  show "files_open st' = files_open st + 1" "files_file st' = files_file st"
    using assms i
    by (cases "first_index (\<lambda>v. v = 0) (take (unat (data_blocks (super st))) (fat st))";
        fastforce simp: fs_create_def Let_def split: if_splits)+
qed

lemma fs_delete_blocked:
  assumes "files_open st \<noteq> 0"
  shows "fs_delete st filename = Some (-1, st)"
  using assms by (simp add: fs_delete_def split: option.splits)

lemma fs_create_at_128:
  assumes "files_open st = 128"
  shows "fs_create st filename = (-1, st)"
  using assms by (simp add: fs_create_def FS_FILE_MAX_COUNT_def)

text \<open>
  C9. Every successful \<^verbatim>\<open>fs_create\<close> adds one to \<^verbatim>\<open>files.open\<close> and leaves the table
  of handles as it was. So after a successful create (the counter not negative before
  it) \<^verbatim>\<open>fs_delete\<close> returns -1 for every file name, whether or not a handle is open; and
  with the counter at 128 \<^verbatim>\<open>fs_create\<close> returns -1.
\<close>

theorem create_increments_open_counter:
  "(fs_create st filename = (0, st') \<longrightarrow>
      files_open st' = files_open st + 1 \<and> files_file st' = files_file st)
   \<and> (fs_create st filename = (0, st') \<and> 0 \<le> files_open st \<longrightarrow>
        (\<forall>other. fs_delete st' other = Some (-1, st')))
   \<and> (files_open st = 128 \<longrightarrow> fs_create st filename = (-1, st))"
proof -
  have "fs_delete st' other = Some (-1, st')"
    if "fs_create st filename = (0, st')" "0 \<le> files_open st" for other
  proof -
    from fs_create_success(1) [OF that(1)] that(2) have "files_open st' \<noteq> 0" by simp
    then show ?thesis by (rule fs_delete_blocked)
  qed
  with fs_create_success [of st filename st'] fs_create_at_128 [of st filename]
  show ?thesis by blast
qed

theorem create_increments_open_counter_witness:
  "fs_create vol_empty ''x'' = (0, vol_x)
   \<and> files_open vol_empty = 0 \<and> files_open vol_x = 1
   \<and> files_file vol_x = replicate 32 zero_file
   \<and> fs_delete vol_x ''x'' = Some (-1, vol_x)
   \<and> fs_delete vol_x ''y'' = Some (-1, vol_x)
   \<and> fs_create (vol_x\<lparr>files_open := 128\<rparr>) ''y'' = (-1, vol_x\<lparr>files_open := 128\<rparr>)"
proof -
  note t = create_increments_open_counter [of vol_empty "''x''" vol_x]
  have d: "fs_delete vol_x other = Some (-1, vol_x)" for other
    using t create_x open_vol_empty by simp
  have "files_open (vol_x\<lparr>files_open := 128\<rparr>) = 128" by simp
  with create_increments_open_counter [of "vol_x\<lparr>files_open := 128\<rparr>" "''y''"]
  have "fs_create (vol_x\<lparr>files_open := 128\<rparr>) ''y'' = (-1, vol_x\<lparr>files_open := 128\<rparr>)"
    by blast
  with d create_x open_vol_empty open_vol_x show ?thesis by blast
qed

lemma replicate_32: "replicate 32 x = x # replicate 31 x"
  by (simp add: replicate_numeral)

lemma zero_file_free: "file_filename zero_file ! 0 = 0"
  by (simp add: zero_file_def FS_FILENAME_LEN_def)

lemma handle_x_used: "file_filename handle_x ! 0 \<noteq> 0"
  by (simp add: handle_x_def name16_x)

lemma open_x: "fs_open vol_x (Some ''x'') = (0, vol_x_open)"
  by (simp add: fs_open_def vol_x_def vol_empty_def vol_x_open_def entry_x_def handle_x_def
      first_index_replicate zero_file_free FS_OPEN_MAX_COUNT_def list_update_replicate_0)

lemma open_x_again: "fs_open vol_x_open (Some ''x'') = (0, vol_x_open2)"
  by (simp add: fs_open_def vol_x_def vol_empty_def vol_x_open_def vol_x_open2_def entry_x_def
      first_index_replicate zero_file_free handle_x_used FS_OPEN_MAX_COUNT_def
      list_update_replicate_0)
     (simp add: handle_x_def)

lemma close_x: "fs_close vol_x_open 0 = (0, vol_x)"
  by (simp add: fs_close_def bad_fd_def vol_x_open_def vol_x_def vol_empty_def handle_x_used
      FS_OPEN_MAX_COUNT_def replicate_32)

subsection \<open>Delete and the open-file counter\<close>

text \<open>
  C5 (scenario S6, evaluated). \<^verbatim>\<open>create("x")\<close>, \<^verbatim>\<open>open("x")\<close>, \<^verbatim>\<open>delete("x")\<close>
  returns -1; \<^verbatim>\<open>close(0)\<close> brings the volume back to its state after the create, with
  every handle slot free and \<^verbatim>\<open>files.open = 1\<close>; \<^verbatim>\<open>delete("x")\<close> returns -1 again.
\<close>

theorem delete_after_close_blocked:
  "fs_create vol_empty ''x'' = (0, vol_x)
   \<and> fs_open vol_x (Some ''x'') = (0, vol_x_open)
   \<and> fs_delete vol_x_open ''x'' = Some (-1, vol_x_open)
   \<and> fs_close vol_x_open 0 = (0, vol_x)
   \<and> files_file vol_x = replicate 32 zero_file
   \<and> fs_delete vol_x ''x'' = Some (-1, vol_x)"
proof -
  have "files_open vol_x_open \<noteq> 0" "files_open vol_x \<noteq> 0"
    by (simp_all add: vol_x_open_def open_vol_x)
  then have "fs_delete vol_x_open ''x'' = Some (-1, vol_x_open)"
    "fs_delete vol_x ''x'' = Some (-1, vol_x)"
    by (simp_all add: fs_delete_blocked)
  with create_x open_x close_x open_vol_x(2) show ?thesis by simp
qed

subsection \<open>The descriptor returned by open\<close>

lemma fs_open_result: "fst (fs_open st filename_ptr) = 0 \<or> fst (fs_open st filename_ptr) = -1"
  by (simp add: fs_open_def split: option.splits)

text \<open>
  C6 (evaluated). Two successive calls of \<^verbatim>\<open>open("x")\<close> with no close between them:
  the first occupies slot 0, the second occupies slot 1 (free before it, holding the name
  and offset 0 after it), and both return 0.
\<close>

theorem open_returns_zero_for_slot_one:
  "fs_open vol_x (Some ''x'') = (0, vol_x_open)
   \<and> fs_open vol_x_open (Some ''x'') = (0, vol_x_open2)
   \<and> files_file vol_x_open ! 1 = zero_file
   \<and> files_file vol_x_open2 ! 1 = \<lparr>file_filename = name16 ''x'', file_offset = 0\<rparr>"
  using open_x open_x_again
  by (simp add: vol_x_open_def vol_x_open2_def handle_x_def)

subsection \<open>The FAT index that delete writes\<close>

text \<open>
  C10 (evaluated). \<^verbatim>\<open>fs_create("x")\<close> leaves the entry with \<^verbatim>\<open>data_index = 0xFFFF\<close>.
  On that volume with no file counted as open (as after an unmount and a mount by a new
  process) \<^verbatim>\<open>fs_delete("x")\<close> stores to \<^verbatim>\<open>fat.flat[65535]\<close>, outside the seven entries
  of the FAT: the call has no defined result.
\<close>

theorem delete_empty_file_out_of_bounds:
  "fs_create vol_empty ''x'' = (0, vol_x)
   \<and> unat (entry_data_index (root vol_x ! 0)) = 65535
   \<and> length (fat vol_x) = 7
   \<and> unat (data_blocks (super vol_x)) = 7
   \<and> fs_delete (vol_x\<lparr>files_open := 0\<rparr>) ''x'' = None"
  using create_x
  by (simp add: fs_delete_def vol_x_def vol_empty_def entry_x_def)

subsection \<open>The bound that lseek checks\<close>

lemma name16_a: "name16 ''a'' = 97 # replicate 15 0"
  by (simp add: name16_def FS_FILENAME_LEN_def replicate_numeral)

lemma name16_b: "name16 ''b'' = 98 # replicate 15 0"
  by (simp add: name16_def FS_FILENAME_LEN_def replicate_numeral)

lemma name16_f: "name16 ''f'' = 102 # replicate 15 0"
  by (simp add: name16_def FS_FILENAME_LEN_def replicate_numeral)

text \<open>
  C7 (evaluated). Handle 0 names \<^verbatim>\<open>"b"\<close>, whose entry (index 1) has size 100, yet
  \<^verbatim>\<open>fs_lseek(0, 50)\<close> returns -1, since entry 0 has size 0. Handle 1 names \<^verbatim>\<open>"a"\<close>, whose
  entry (index 0) has size 0, yet \<^verbatim>\<open>fs_lseek(1, 50)\<close> returns 0 and sets the offset to 50,
  since entry 1 has size 100.
\<close>

theorem lseek_compares_entry_at_fd:
  "find_entry vol_ab 0 = Some 1 \<and> entry_file_size (root vol_ab ! 1) = 100
   \<and> fs_lseek vol_ab 0 50 = (-1, vol_ab)
   \<and> find_entry vol_ab 1 = Some 0 \<and> entry_file_size (root vol_ab ! 0) = 0
   \<and> fst (fs_lseek vol_ab 1 50) = 0
   \<and> file_offset (files_file (snd (fs_lseek vol_ab 1 50)) ! 1) = 50"
  by (simp add: find_entry_def fs_lseek_def bad_fd_def vol_ab_def vol_empty_def entry_a_def
      entry_b_def name16_a name16_b FS_OPEN_MAX_COUNT_def)

subsection \<open>The value returned by read\<close>

text \<open>
  C3 (evaluated). The file has five bytes and the handle stands at offset 0. A read of
  ten bytes delivers the five bytes \<^verbatim>\<open>Hello\<close> and moves the offset to 5, and returns 10.
\<close>

theorem read_returns_count:
  "entry_file_size (root vol_f ! 0) = 5 \<and> file_offset (files_file vol_f ! 0) = 0
   \<and> fs_read vol_f 0 10
       = (10, map of_char ''Hello'',
          vol_f\<lparr>files_file :=
                 \<lparr>file_filename = name16 ''f'', file_offset = 5\<rparr> # replicate 31 zero_file\<rparr>)"
  by (simp add: fs_read_def find_entry_def bad_fd_def vol_f_def vol_empty_def entry_f_def
      handle_f_def name16_f FS_OPEN_MAX_COUNT_def SIZE_MAX_plus_1_def
      BLOCK_SIZE_def block_read_def dev_hello_def dev10_def int_of_size_t_def)

subsection \<open>What delete frees\<close>

lemma count_zero_update:
  "k < length xs \<Longrightarrow>
   length (filter (\<lambda>v. v = 0) (take n (xs[k := 0::u16])))
     = length (filter (\<lambda>v. v = 0) (take n xs)) + (if k < n \<and> xs ! k \<noteq> 0 then 1 else 0)"
proof (induction xs arbitrary: k n)
  case Nil
  then show ?case by simp
next
  case (Cons x xs)
  show ?case
  proof (cases n)
    case 0
    then show ?thesis by simp
  next
    case (Suc m)
    show ?thesis
    proof (cases k)
      case 0
      with Suc show ?thesis by simp
    next
      case (Suc j)
      with Cons.prems have "j < length xs" by simp
      from Cons.IH [OF this, of m] Suc \<open>n = Suc m\<close> show ?thesis by simp
    qed
  qed
qed

lemma fs_delete_success:
  assumes "fs_delete st filename = Some (0, st')"
  obtains i where
    "first_index (\<lambda>e. entry_filename e = name16 filename) (root st) = Some i"
    "files_open st = 0"
    "unat (entry_data_index (root st ! i)) < length (fat st)"
    "st' = st\<lparr>fat := (fat st)[unat (entry_data_index (root st ! i)) := 0],
              root := (root st)[i := zero_entry]\<rparr>"
proof (cases "first_index (\<lambda>e. entry_filename e = name16 filename) (root st)")
  case None
  with assms show ?thesis by (simp add: fs_delete_def)
next
  case (Some i)
  with assms have o: "files_open st = 0"
    by (simp add: fs_delete_def split: if_splits)
  with assms Some have k: "unat (entry_data_index (root st ! i)) < length (fat st)"
    by (simp add: fs_delete_def Let_def split: if_splits)
  with assms Some o
  have "st' = st\<lparr>fat := (fat st)[unat (entry_data_index (root st ! i)) := 0],
                  root := (root st)[i := zero_entry]\<rparr>"
    by (simp add: fs_delete_def Let_def)
  with Some o k show ?thesis by (rule that)
qed

lemma spec_chain_numeral:
  "spec_chain f (numeral n) i =
     (if i = 0xFFFF \<or> unat i \<ge> length f then []
      else unat i # spec_chain f (pred_numeral n) (f ! unat i))"
  by (simp add: numeral_eq_Suc)

lemma chain_of_f: "spec_chain (fat vol_chain) 7 (entry_data_index (root vol_chain ! 0)) = [1, 3]"
  by (simp add: vol_chain_def vol_empty_def entry_f2_def spec_chain_numeral)

lemma delete_chain: "fs_delete vol_chain ''f'' = Some (0, vol_chain_deleted)"
  by (simp add: fs_delete_def vol_chain_def vol_chain_deleted_def vol_empty_def entry_f2_def
      replicate_numeral [of _ zero_entry])

text \<open>
  C4, as the code has it. A successful \<^verbatim>\<open>fs_delete\<close> zeroes the first directory entry
  whose name matches and sets one FAT entry to 0, the one at the entry's \<^verbatim>\<open>data_index\<close>;
  every other FAT entry keeps its value. The count of free FAT entries grows by one when
  that entry was in use (and lies among the first \<^verbatim>\<open>data_blocks\<close>), and not at all
  otherwise.
\<close>

theorem delete_frees_first_entry_only:
  assumes "fs_delete st filename = Some (0, st')"
  shows "\<exists>i k. first_index (\<lambda>e. entry_filename e = name16 filename) (root st) = Some i
           \<and> k = unat (entry_data_index (root st ! i))
           \<and> root st' = (root st)[i := zero_entry]
           \<and> fat st' = (fat st)[k := 0]
           \<and> fat_free st' =
               fat_free st
                 + (if k < unat (data_blocks (super st)) \<and> fat st ! k \<noteq> 0 then 1 else 0)"
proof -
  from assms obtain i where i:
    "first_index (\<lambda>e. entry_filename e = name16 filename) (root st) = Some i"
    "unat (entry_data_index (root st ! i)) < length (fat st)"
    "st' = st\<lparr>fat := (fat st)[unat (entry_data_index (root st ! i)) := 0],
              root := (root st)[i := zero_entry]\<rparr>"
    by (rule fs_delete_success)
  from i(3) have "fat_free st' =
      fat_free st
        + (if unat (entry_data_index (root st ! i)) < unat (data_blocks (super st))
              \<and> fat st ! unat (entry_data_index (root st ! i)) \<noteq> 0 then 1 else 0)"
    by (simp add: fat_free_def count_zero_update [OF i(2)])
  with i(1,3) show ?thesis by simp
qed

theorem delete_frees_first_entry_only_witness:
  "fs_delete vol_chain ''f'' = Some (0, vol_chain_deleted)
   \<and> root vol_chain_deleted = (root vol_chain)[0 := zero_entry]
   \<and> fat vol_chain_deleted = (fat vol_chain)[1 := 0]
   \<and> fat_free vol_chain_deleted = fat_free vol_chain + 1"
proof -
  have f: "first_index (\<lambda>e. entry_filename e = name16 ''f'') (root vol_chain) = Some 0"
    "unat (entry_data_index (root vol_chain ! 0)) = 1"
    "unat (data_blocks (super vol_chain)) = 7" "fat vol_chain ! 1 = 3"
    by (simp_all add: vol_chain_def vol_empty_def entry_f2_def)
  from delete_frees_first_entry_only [OF delete_chain] f delete_chain
  show ?thesis by auto
qed

text \<open>
  C4 as stated fails: the file \<^verbatim>\<open>"f"\<close> has the chain 1, 3 of length two; its delete
  succeeds, leaves FAT entry 3 at \<open>0xFFFF\<close>, and the count of free entries goes from 4 to 5.
\<close>

theorem delete_leaves_rest_of_chain:
  "spec_chain (fat vol_chain) 7 (entry_data_index (root vol_chain ! 0)) = [1, 3]
   \<and> fs_delete vol_chain ''f'' = Some (0, vol_chain_deleted)
   \<and> fat vol_chain_deleted ! 3 = 0xFFFF
   \<and> fat_free vol_chain = 4 \<and> fat_free vol_chain_deleted = 5"
  using chain_of_f delete_chain
  by (simp add: fat_free_def vol_chain_def vol_chain_deleted_def vol_empty_def)

subsection \<open>The loops of read and write\<close>

declare write_loop.simps [simp del] read_loop.simps [simp del]

lemma write_loop_offset:
  "write_loop d sdi edi offset buf writing = (True, d', offset') \<Longrightarrow> offset' = offset + writing"
proof (induction d sdi edi offset buf writing arbitrary: d' offset' rule: write_loop.induct)
  case (1 d sdi edi offset buf writing)
  show ?case
  proof (cases "writing = 0")
    case True
    with "1.prems" show ?thesis by (simp add: write_loop.simps)
  next
    case False
    define ws where "ws = (if BLOCK_SIZE - offset mod BLOCK_SIZE > writing then writing
                else BLOCK_SIZE - offset mod BLOCK_SIZE)"
    have ws: "ws \<le> writing" by (simp add: ws_def)
    from "1.prems" False obtain buffer d1 where
      r: "block_read d (sdi + (edi + offset div BLOCK_SIZE)) = Some buffer" and
      w: "block_write d (sdi + (edi + offset div BLOCK_SIZE))
            (overlay buffer (offset mod BLOCK_SIZE) (take ws buf)) = Some d1" and
      l: "write_loop d1 sdi edi (offset + ws) (drop ws buf) (writing - ws) = (True, d', offset')"
      by (subst (asm) write_loop.simps) (auto simp: Let_def ws_def split: option.splits)
    have "offset' = offset + ws + (writing - ws)"
      by (rule "1.IH" [OF False refl refl ws_def r w l])
    with ws show ?thesis by simp
  qed
qed

lemma map_update_same: "f y = f (xs ! i) \<Longrightarrow> map f (xs[i := y]) = map f xs"
  by (cases "i < length xs") (simp_all add: map_update list_update_same_conv list_update_beyond)

lemma int_of_size_t_10000: "int_of_size_t 10000 = 10000"
  by (simp add: int_of_size_t_def)

lemma int_of_size_t_small: "n < 2 ^ 31 \<Longrightarrow> int_of_size_t n = int n"
  unfolding int_of_size_t_def
  by (simp add: signed_of_nat signed_take_bit_int_eq_self_iff take_bit_nat_eq_self)

lemma fs_write_cases:
  assumes "fs_write st fd buf count = (r, st')"
  obtains (failed) d' where "r = -1" "st' = st\<lparr>disk := d'\<rparr>"
  | (written) i d' where "r = int_of_size_t count" "\<not> bad_fd st fd" "find_entry st fd = Some i"
      "st' = st\<lparr>disk := d',
                 files_file := (files_file st)[nat fd := (files_file st ! nat fd)
                    \<lparr>file_offset := file_offset (files_file st ! nat fd) + count\<rparr>],
                 root := (if file_offset (files_file st ! nat fd) + count
                               > unat (entry_file_size (root st ! i))
                          then (root st)[i := (root st ! i)\<lparr>entry_file_size :=
                                  word_of_nat (file_offset (files_file st ! nat fd) + count)\<rparr>]
                          else root st)\<rparr>"
proof (cases "bad_fd st fd")
  case True
  with assms have "r = -1" "st' = st\<lparr>disk := disk st\<rparr>" by (simp_all add: fs_write_def)
  then show ?thesis by (rule failed)
next
  case False
  show ?thesis
  proof (cases "find_entry st fd")
    case None
    with assms False have "r = -1" "st' = st\<lparr>disk := disk st\<rparr>"
      by (simp_all add: fs_write_def)
    then show ?thesis by (rule failed)
  next
    case (Some i)
    obtain ok d' off' where l:
      "write_loop (disk st) (unat (data_index (super st))) (unat (entry_data_index (root st ! i)))
         (file_offset (files_file st ! nat fd)) buf count = (ok, d', off')"
      by (cases "write_loop (disk st) (unat (data_index (super st)))
        (unat (entry_data_index (root st ! i))) (file_offset (files_file st ! nat fd)) buf count")
    show ?thesis
    proof (cases ok)
      case False
      with assms \<open>\<not> bad_fd st fd\<close> Some l have "r = -1" "st' = st\<lparr>disk := d'\<rparr>"
        by (simp_all add: fs_write_def Let_def)
      then show ?thesis by (rule failed)
    next
      case True
      with l have off': "off' = file_offset (files_file st ! nat fd) + count"
        by (simp add: write_loop_offset)
      from assms \<open>\<not> bad_fd st fd\<close> Some l True off' show ?thesis
        by (intro written [of i d']) (simp_all add: fs_write_def Let_def)
    qed
  qed
qed

lemma bad_fd_fat [simp]: "bad_fd (st\<lparr>fat := f\<rparr>) fd = bad_fd st fd"
  by (simp add: bad_fd_def)

lemma find_entry_fat [simp]: "find_entry (st\<lparr>fat := f\<rparr>) fd = find_entry st fd"
  by (simp add: find_entry_def)

lemma fs_read_fat:
  "fs_read (st\<lparr>fat := f\<rparr>) fd n
     = (case fs_read st fd n of (r, out, st') \<Rightarrow> (r, out, st'\<lparr>fat := f\<rparr>))"
  by (simp add: fs_read_def Let_def split: option.splits prod.splits bool.splits)

lemma fs_write_fat:
  "fs_write (st\<lparr>fat := f\<rparr>) fd buf n
     = (case fs_write st fd buf n of (r, st') \<Rightarrow> (r, st'\<lparr>fat := f\<rparr>))"
  by (simp add: fs_write_def Let_def split: option.splits prod.splits bool.splits)

text \<open>
  The loops in terms of the sequence of bytes that starts at block \<open>sdi + edi\<close>: when
  the blocks can be read, \<open>read_loop\<close> delivers the bytes \<open>off .. off + n - 1\<close> of it; when
  they can be written too, \<open>write_loop\<close> replaces these bytes and no other.
\<close>

lemma span_readable_iff:
  "span_readable d B off n \<longleftrightarrow>
     (\<forall>q. off \<le> q \<and> q < off + n \<longrightarrow>
        (\<exists>b. dev_blocks d (B + q div BLOCK_SIZE) = Some b \<and> length b = BLOCK_SIZE))"
proof -
  have "(case x of None \<Rightarrow> False | Some b \<Rightarrow> length b = BLOCK_SIZE)
          \<longleftrightarrow> (\<exists>b. x = Some b \<and> length b = BLOCK_SIZE)" for x :: "byte list option"
    by (cases x) simp_all
  then show ?thesis
    unfolding span_readable_def list_all_iff by auto
qed

lemma span_writable_iff:
  "span_writable d B off n \<longleftrightarrow>
     (\<forall>q. off \<le> q \<and> q < off + n \<longrightarrow> dev_writable d (B + q div BLOCK_SIZE))"
  unfolding span_writable_def list_all_iff by auto

lemma chunk_div_mod:
  assumes "i < BLOCK_SIZE - off mod BLOCK_SIZE"
  shows "(off + i) div BLOCK_SIZE = off div BLOCK_SIZE"
    and "(off + i) mod BLOCK_SIZE = off mod BLOCK_SIZE + i"
proof -
  have n: "BLOCK_SIZE \<noteq> 0" by (simp add: BLOCK_SIZE_def)
  have "off div BLOCK_SIZE * BLOCK_SIZE + off mod BLOCK_SIZE = off"
    by (rule div_mult_mod_eq)
  then have e: "off + i = (off mod BLOCK_SIZE + i) + off div BLOCK_SIZE * BLOCK_SIZE"
    by linarith
  from assms have lt: "off mod BLOCK_SIZE + i < BLOCK_SIZE" by linarith
  have "(off + i) div BLOCK_SIZE
      = ((off mod BLOCK_SIZE + i) + off div BLOCK_SIZE * BLOCK_SIZE) div BLOCK_SIZE"
    using e by simp
  also have "\<dots> = off div BLOCK_SIZE + (off mod BLOCK_SIZE + i) div BLOCK_SIZE"
    using n by (rule div_mult_self1)
  also have "\<dots> = off div BLOCK_SIZE" using lt by simp
  finally show "(off + i) div BLOCK_SIZE = off div BLOCK_SIZE" .
  have "(off + i) mod BLOCK_SIZE
      = ((off mod BLOCK_SIZE + i) + off div BLOCK_SIZE * BLOCK_SIZE) mod BLOCK_SIZE"
    using e by simp
  also have "\<dots> = (off mod BLOCK_SIZE + i) mod BLOCK_SIZE"
    by (rule mod_mult_self1)
  also have "\<dots> = off mod BLOCK_SIZE + i" using lt by simp
  finally show "(off + i) mod BLOCK_SIZE = off mod BLOCK_SIZE + i" .
qed

lemma take_drop_nth:
  "m + n \<le> length xs \<Longrightarrow> i < n \<Longrightarrow> take n (drop m xs) ! i = xs ! (m + i)"
  by simp

lemma read_chunk:
  assumes b: "dev_blocks d (B + off div BLOCK_SIZE) = Some buffer" "length buffer = BLOCK_SIZE"
    and rs: "rs \<le> BLOCK_SIZE - off mod BLOCK_SIZE"
  shows "take rs (drop (off mod BLOCK_SIZE) buffer) = bytes_at d B off rs"
proof (rule nth_equalityI)
  from b(2) rs show "length (take rs (drop (off mod BLOCK_SIZE) buffer)) = length (bytes_at d B off rs)"
    by (simp add: bytes_at_def)
next
  fix i assume "i < length (take rs (drop (off mod BLOCK_SIZE) buffer))"
  then have i: "i < rs" by simp
  with rs have i': "i < BLOCK_SIZE - off mod BLOCK_SIZE" by simp
  from i rs b(2) have "take rs (drop (off mod BLOCK_SIZE) buffer) ! i = buffer ! (off mod BLOCK_SIZE + i)"
    by simp
  also from i have "\<dots> = bytes_at d B off rs ! i"
    by (simp add: bytes_at_def byte_at_def chunk_div_mod [OF i'] b(1))
  finally show "take rs (drop (off mod BLOCK_SIZE) buffer) ! i = bytes_at d B off rs ! i" .
qed

lemma bytes_at_split:
  "rs \<le> n \<Longrightarrow> bytes_at d B off rs @ bytes_at d B (off + rs) (n - rs) = bytes_at d B off n"
proof -
  assume "rs \<le> n"
  then have "[off..<off + n] = [off..<off + rs] @ [off + rs..<off + rs + (n - rs)]"
    using upt_add_eq_append [of off "off + rs" "n - rs"] by simp
  then show ?thesis by (simp add: bytes_at_def)
qed

lemma span_readable_rest:
  "span_readable d B off n \<Longrightarrow> rs \<le> n \<Longrightarrow> span_readable d B (off + rs) (n - rs)"
  by (simp add: span_readable_iff)

lemma read_loop_spec:
  "span_readable d (sdi + edi) off n \<Longrightarrow>
   read_loop d sdi edi off n out = (True, off + n, 0, out @ bytes_at d (sdi + edi) off n)"
proof (induction d sdi edi off n out rule: read_loop.induct)
  case (1 d sdi edi offset reading out)
  show ?case
  proof (cases "reading = 0")
    case True
    then show ?thesis by (simp add: read_loop.simps bytes_at_def)
  next
    case False
    define rs where "rs = (if BLOCK_SIZE - offset mod BLOCK_SIZE > reading then reading
                else BLOCK_SIZE - offset mod BLOCK_SIZE)"
    have rs: "rs \<le> reading" "rs \<le> BLOCK_SIZE - offset mod BLOCK_SIZE" by (simp_all add: rs_def)
    from "1.prems" False obtain buffer where
      b: "dev_blocks d (sdi + edi + offset div BLOCK_SIZE) = Some buffer"
         "length buffer = BLOCK_SIZE"
      unfolding span_readable_iff by (auto dest!: spec [of _ offset])
    then have r: "block_read d (sdi + (edi + offset div BLOCK_SIZE)) = Some buffer"
      by (simp add: block_read_def add.assoc)
    have ih: "read_loop d sdi edi (offset + rs) (reading - rs)
            (out @ take rs (drop (offset mod BLOCK_SIZE) buffer))
          = (True, offset + rs + (reading - rs), 0,
             (out @ take rs (drop (offset mod BLOCK_SIZE) buffer))
               @ bytes_at d (sdi + edi) (offset + rs) (reading - rs))"
      by (rule "1.IH" [OF False refl refl rs_def r span_readable_rest [OF "1.prems" rs(1)]])
    have "read_loop d sdi edi offset reading out
        = read_loop d sdi edi (offset + rs) (reading - rs)
            (out @ take rs (drop (offset mod BLOCK_SIZE) buffer))"
      using False r by (subst read_loop.simps) (simp add: Let_def rs_def)
    with ih rs(1) show ?thesis
      by (simp add: read_chunk [OF b rs(2)] bytes_at_split)
  qed
qed

lemma overlay_length:
  "bo + length src \<le> length buffer \<Longrightarrow> length (overlay buffer bo src) = length buffer"
  by (simp add: overlay_def)

lemma overlay_nth:
  "bo + length src \<le> length buffer \<Longrightarrow> j < length buffer \<Longrightarrow>
   overlay buffer bo src ! j
     = (if bo \<le> j \<and> j < bo + length src then src ! (j - bo) else buffer ! j)"
  by (auto simp: overlay_def nth_append min_def)

lemma written_first_block:
  assumes b: "dev_blocks d (B + off div BLOCK_SIZE) = Some buffer" "length buffer = BLOCK_SIZE"
    and ws: "length chunk \<le> BLOCK_SIZE - off mod BLOCK_SIZE"
  shows "dev_blocks (written (d\<lparr>dev_blocks := (dev_blocks d)(B + off div BLOCK_SIZE \<mapsto>
                overlay buffer (off mod BLOCK_SIZE) chunk)\<rparr>) B (off + length chunk) rest)
            (B + off div BLOCK_SIZE)
       = dev_blocks (written d B off (chunk @ rest)) (B + off div BLOCK_SIZE)"
proof -
  define a bo where "a = off div BLOCK_SIZE" and "bo = off mod BLOCK_SIZE"
  have off: "off = a * BLOCK_SIZE + bo" by (simp add: a_def bo_def)
  have bo: "bo < BLOCK_SIZE" by (simp add: bo_def BLOCK_SIZE_def)
  have fit: "bo + length chunk \<le> length buffer"
    using ws b(2) bo unfolding bo_def by linarith
  show ?thesis
    using fit b bo unfolding written_def a_def [symmetric] bo_def [symmetric]
    by (auto simp: overlay_length overlay_nth nth_append off)
qed

lemma not_in_first_chunk:
  assumes "n \<le> BLOCK_SIZE - off mod BLOCK_SIZE" and "blk \<noteq> B + off div BLOCK_SIZE"
    and "B \<le> blk" and "j < BLOCK_SIZE" and "off \<le> (blk - B) * BLOCK_SIZE + j"
  shows "off + n \<le> (blk - B) * BLOCK_SIZE + j"
proof (rule ccontr)
  assume "\<not> off + n \<le> (blk - B) * BLOCK_SIZE + j"
  with assms(1,5) have i: "(blk - B) * BLOCK_SIZE + j - off < BLOCK_SIZE - off mod BLOCK_SIZE"
    by linarith
  from assms(5) have "off + ((blk - B) * BLOCK_SIZE + j - off) = (blk - B) * BLOCK_SIZE + j"
    by simp
  with chunk_div_mod(1) [OF i]
  have "((blk - B) * BLOCK_SIZE + j) div BLOCK_SIZE = off div BLOCK_SIZE" by simp
  moreover from assms(4) have "((blk - B) * BLOCK_SIZE + j) div BLOCK_SIZE = blk - B"
    by simp
  ultimately show False using assms(2,3) by simp
qed

lemma written_other_block:
  assumes ws: "length chunk \<le> BLOCK_SIZE - off mod BLOCK_SIZE"
    and ne: "blk \<noteq> B + off div BLOCK_SIZE"
  shows "dev_blocks (written (d\<lparr>dev_blocks := (dev_blocks d)(B + off div BLOCK_SIZE \<mapsto> X)\<rparr>)
                B (off + length chunk) rest) blk
       = dev_blocks (written d B off (chunk @ rest)) blk"
proof (cases "dev_blocks d blk")
  case None
  with ne show ?thesis by (simp add: written_def)
next
  case (Some b)
  have "off + length chunk \<le> (blk - B) * BLOCK_SIZE + j"
    if "B \<le> blk" "j < BLOCK_SIZE" "off \<le> (blk - B) * BLOCK_SIZE + j" for j
    using not_in_first_chunk [OF ws ne that] .
  with Some ne show ?thesis
    by (auto simp: written_def nth_append)
qed

lemma written_chunk:
  assumes b: "dev_blocks d (B + off div BLOCK_SIZE) = Some buffer" "length buffer = BLOCK_SIZE"
    and ws: "length chunk \<le> BLOCK_SIZE - off mod BLOCK_SIZE"
  shows "written (d\<lparr>dev_blocks := (dev_blocks d)(B + off div BLOCK_SIZE \<mapsto>
                overlay buffer (off mod BLOCK_SIZE) chunk)\<rparr>) B (off + length chunk) rest
       = written d B off (chunk @ rest)"
proof -
  have "dev_blocks (written (d\<lparr>dev_blocks := (dev_blocks d)(B + off div BLOCK_SIZE \<mapsto>
                overlay buffer (off mod BLOCK_SIZE) chunk)\<rparr>) B (off + length chunk) rest) blk
       = dev_blocks (written d B off (chunk @ rest)) blk" for blk
  proof (cases "blk = B + off div BLOCK_SIZE")
    case True
    then show ?thesis using written_first_block [OF b ws] by simp
  next
    case False
    then show ?thesis by (rule written_other_block [OF ws])
  qed
  then have "dev_blocks (written (d\<lparr>dev_blocks := (dev_blocks d)(B + off div BLOCK_SIZE \<mapsto>
                overlay buffer (off mod BLOCK_SIZE) chunk)\<rparr>) B (off + length chunk) rest)
       = dev_blocks (written d B off (chunk @ rest))"
    by (rule ext)
  moreover have "dev_count (written (d\<lparr>dev_blocks := (dev_blocks d)(B + off div BLOCK_SIZE \<mapsto>
                overlay buffer (off mod BLOCK_SIZE) chunk)\<rparr>) B (off + length chunk) rest)
       = dev_count (written d B off (chunk @ rest))"
    "dev_writable (written (d\<lparr>dev_blocks := (dev_blocks d)(B + off div BLOCK_SIZE \<mapsto>
                overlay buffer (off mod BLOCK_SIZE) chunk)\<rparr>) B (off + length chunk) rest)
       = dev_writable (written d B off (chunk @ rest))"
    "device.more (written (d\<lparr>dev_blocks := (dev_blocks d)(B + off div BLOCK_SIZE \<mapsto>
                overlay buffer (off mod BLOCK_SIZE) chunk)\<rparr>) B (off + length chunk) rest)
       = device.more (written d B off (chunk @ rest))"
    by (simp_all add: written_def)
  ultimately show ?thesis by (auto intro!: device.equality)
qed

lemma written_nil: "written d B off [] = d"
proof -
  have "(\<lambda>blk. map_option
            (\<lambda>b. map (\<lambda>j. if B \<le> blk \<and> j < BLOCK_SIZE
                               \<and> off \<le> (blk - B) * BLOCK_SIZE + j
                               \<and> (blk - B) * BLOCK_SIZE + j < off + length ([] :: byte list)
                            then ([] :: byte list) ! ((blk - B) * BLOCK_SIZE + j - off)
                            else b ! j)
                   [0..<length b])
            (dev_blocks d blk)) = dev_blocks d"
  proof (rule ext)
    fix blk
    show "map_option
            (\<lambda>b. map (\<lambda>j. if B \<le> blk \<and> j < BLOCK_SIZE
                               \<and> off \<le> (blk - B) * BLOCK_SIZE + j
                               \<and> (blk - B) * BLOCK_SIZE + j < off + length ([] :: byte list)
                            then ([] :: byte list) ! ((blk - B) * BLOCK_SIZE + j - off)
                            else b ! j)
                   [0..<length b])
            (dev_blocks d blk) = dev_blocks d blk"
      by (cases "dev_blocks d blk") (auto intro!: nth_equalityI)
  qed
  then show ?thesis unfolding written_def by simp
qed

lemma span_writable_rest:
  "span_writable d B off n \<Longrightarrow> rs \<le> n \<Longrightarrow> span_writable d B (off + rs) (n - rs)"
  by (simp add: span_writable_iff)

lemma span_readable_update:
  "span_readable d B off n \<Longrightarrow> length X = BLOCK_SIZE \<Longrightarrow>
   span_readable (d\<lparr>dev_blocks := (dev_blocks d)(blk \<mapsto> X)\<rparr>) B off n"
  by (simp add: span_readable_iff)

lemma span_writable_update:
  "span_writable (d\<lparr>dev_blocks := f\<rparr>) B off n = span_writable d B off n"
  by (simp add: span_writable_iff)

lemma write_loop_spec:
  "span_readable d (sdi + edi) off n \<Longrightarrow> span_writable d (sdi + edi) off n \<Longrightarrow>
   n \<le> length buf \<Longrightarrow>
   write_loop d sdi edi off buf n = (True, written d (sdi + edi) off (take n buf), off + n)"
proof (induction d sdi edi off buf n rule: write_loop.induct)
  case (1 d sdi edi offset buf writing)
  show ?case
  proof (cases "writing = 0")
    case True
    then show ?thesis by (simp add: write_loop.simps written_nil)
  next
    case False
    define ws where "ws = (if BLOCK_SIZE - offset mod BLOCK_SIZE > writing then writing
                else BLOCK_SIZE - offset mod BLOCK_SIZE)"
    have ws: "ws \<le> writing" "ws \<le> BLOCK_SIZE - offset mod BLOCK_SIZE" by (simp_all add: ws_def)
    from "1.prems"(1) False obtain buffer where
      b: "dev_blocks d (sdi + edi + offset div BLOCK_SIZE) = Some buffer"
         "length buffer = BLOCK_SIZE"
      unfolding span_readable_iff by (auto dest!: spec [of _ offset])
    from "1.prems"(2) False have wr: "dev_writable d (sdi + edi + offset div BLOCK_SIZE)"
      unfolding span_writable_iff by (auto dest!: spec [of _ offset])
    define d1 where "d1 = d\<lparr>dev_blocks := (dev_blocks d)(sdi + edi + offset div BLOCK_SIZE \<mapsto>
                overlay buffer (offset mod BLOCK_SIZE) (take ws buf))\<rparr>"
    from b have r: "block_read d (sdi + (edi + offset div BLOCK_SIZE)) = Some buffer"
      by (simp add: block_read_def add.assoc)
    from wr have w: "block_write d (sdi + (edi + offset div BLOCK_SIZE))
            (overlay buffer (offset mod BLOCK_SIZE) (take ws buf)) = Some d1"
      by (simp add: block_write_def d1_def add.assoc)
    from ws "1.prems"(3) have len: "length (take ws buf) = ws" by simp
    have bo: "offset mod BLOCK_SIZE < BLOCK_SIZE" by (simp add: BLOCK_SIZE_def)
    with ws(2) b(2) len have "length (overlay buffer (offset mod BLOCK_SIZE) (take ws buf)) = BLOCK_SIZE"
      by (simp add: overlay_length)
    with "1.prems"(1) ws(1) have r1: "span_readable d1 (sdi + edi) (offset + ws) (writing - ws)"
      unfolding d1_def by (intro span_readable_update span_readable_rest)
    from "1.prems"(2) ws(1) have w1: "span_writable d1 (sdi + edi) (offset + ws) (writing - ws)"
      unfolding d1_def by (simp add: span_writable_update span_writable_rest)
    from "1.prems"(3) have l1: "writing - ws \<le> length (drop ws buf)" by simp
    have ih: "write_loop d1 sdi edi (offset + ws) (drop ws buf) (writing - ws)
          = (True, written d1 (sdi + edi) (offset + ws) (take (writing - ws) (drop ws buf)),
             offset + ws + (writing - ws))"
      by (rule "1.IH" [OF False refl refl ws_def r w r1 w1 l1])
    have c: "written d1 (sdi + edi) (offset + length (take ws buf))
              (take (writing - ws) (drop ws buf))
        = written d (sdi + edi) offset (take ws buf @ take (writing - ws) (drop ws buf))"
      unfolding d1_def using ws(2) len by (intro written_chunk [OF b]) simp
    from ws(1) have tk: "take ws buf @ take (writing - ws) (drop ws buf) = take writing buf"
      using take_add [of ws "writing - ws" buf] by simp
    have e: "written d1 (sdi + edi) (offset + ws) (take (writing - ws) (drop ws buf))
        = written d (sdi + edi) offset (take writing buf)"
      using c unfolding len tk .
    have "write_loop d sdi edi offset buf writing
        = write_loop d1 sdi edi (offset + ws) (drop ws buf) (writing - ws)"
      using False r w by (subst write_loop.simps) (simp add: Let_def ws_def)
    with ih e ws(1) show ?thesis by simp
  qed
qed

lemma write_loop_fails:
  "off \<le> q \<Longrightarrow> q < off + n \<Longrightarrow>
   dev_blocks d (sdi + edi + q div BLOCK_SIZE) = None
     \<or> \<not> dev_writable d (sdi + edi + q div BLOCK_SIZE) \<Longrightarrow>
   fst (write_loop d sdi edi off buf n) = False"
proof (induction d sdi edi off buf n rule: write_loop.induct)
  case (1 d sdi edi offset buf writing)
  from "1.prems" have nz: "writing \<noteq> 0" by auto
  define ws where "ws = (if BLOCK_SIZE - offset mod BLOCK_SIZE > writing then writing
                else BLOCK_SIZE - offset mod BLOCK_SIZE)"
  have ws: "ws \<le> writing" "ws \<le> BLOCK_SIZE - offset mod BLOCK_SIZE" by (simp_all add: ws_def)
  show ?case
  proof (cases "block_read d (sdi + (edi + offset div BLOCK_SIZE))")
    case None
    with nz show ?thesis by (subst write_loop.simps) (simp add: Let_def)
  next
    case (Some buffer)
    show ?thesis
    proof (cases "dev_writable d (sdi + (edi + offset div BLOCK_SIZE))")
      case False
      with nz Some show ?thesis
        by (subst write_loop.simps) (simp add: Let_def block_write_def)
    next
      case True
      define d1 where "d1 = d\<lparr>dev_blocks := (dev_blocks d)(sdi + (edi + offset div BLOCK_SIZE) \<mapsto>
                overlay buffer (offset mod BLOCK_SIZE) (take ws buf))\<rparr>"
      from True have w: "block_write d (sdi + (edi + offset div BLOCK_SIZE))
            (overlay buffer (offset mod BLOCK_SIZE) (take ws buf)) = Some d1"
        by (simp add: block_write_def d1_def)
      have ne: "q div BLOCK_SIZE \<noteq> offset div BLOCK_SIZE"
        using "1.prems"(3) Some True by (auto simp: block_read_def add.assoc)
      have far: "offset + ws \<le> q"
      proof (rule ccontr)
        assume "\<not> offset + ws \<le> q"
        with "1.prems"(1) ws(2) have "q - offset < BLOCK_SIZE - offset mod BLOCK_SIZE" by linarith
        from chunk_div_mod(1) [OF this] "1.prems"(1) ne show False by simp
      qed
      from "1.prems"(2) ws(1) have lt: "q < offset + ws + (writing - ws)" by simp
      from "1.prems"(3) ne
      have bad: "dev_blocks d1 (sdi + edi + q div BLOCK_SIZE) = None
          \<or> \<not> dev_writable d1 (sdi + edi + q div BLOCK_SIZE)"
        by (simp add: d1_def)
      from "1.IH" [OF nz refl refl ws_def Some w far lt bad] nz Some w
      show ?thesis by (subst write_loop.simps) (simp add: Let_def ws_def)
    qed
  qed
qed

lemma fs_write_contiguous:
  assumes "\<not> bad_fd st fd" and "find_entry st fd = Some i"
    and "B = unat (data_index (super st)) + unat (entry_data_index (root st ! i))"
    and "pos = file_offset (files_file st ! nat fd)"
    and "span_readable (disk st) B pos count" and "span_writable (disk st) B pos count"
    and "count \<le> length buf"
  shows "fs_write st fd buf count =
     (int_of_size_t count,
      st\<lparr>disk := written (disk st) B pos (take count buf),
         files_file :=
           (files_file st)[nat fd := (files_file st ! nat fd)\<lparr>file_offset := pos + count\<rparr>],
         root :=
           (if pos + count > unat (entry_file_size (root st ! i))
            then (root st)[i := (root st ! i)\<lparr>entry_file_size := word_of_nat (pos + count)\<rparr>]
            else root st)\<rparr>)"
proof -
  from assms(3-7) have
    "write_loop (disk st) (unat (data_index (super st))) (unat (entry_data_index (root st ! i)))
       (file_offset (files_file st ! nat fd)) buf count
     = (True, written (disk st) B pos (take count buf), pos + count)"
    by (simp add: write_loop_spec)
  with assms(1,2) show ?thesis by (simp add: fs_write_def Let_def)
qed

lemma fs_write_block_failure:
  assumes "\<not> bad_fd st fd" and "find_entry st fd = Some i"
    and "B = unat (data_index (super st)) + unat (entry_data_index (root st ! i))"
    and "pos = file_offset (files_file st ! nat fd)"
    and "pos \<le> q" and "q < pos + count"
    and "dev_blocks (disk st) (B + q div BLOCK_SIZE) = None
          \<or> \<not> dev_writable (disk st) (B + q div BLOCK_SIZE)"
  shows "fst (fs_write st fd buf count) = -1"
proof -
  from assms(3-7) have
    "fst (write_loop (disk st) (unat (data_index (super st)))
       (unat (entry_data_index (root st ! i)))
       (file_offset (files_file st ! nat fd)) buf count) = False"
    by (intro write_loop_fails [of _ q]) simp_all
  then obtain d' off' where
    "write_loop (disk st) (unat (data_index (super st)))
       (unat (entry_data_index (root st ! i)))
       (file_offset (files_file st ! nat fd)) buf count = (False, d', off')"
    by (cases "write_loop (disk st) (unat (data_index (super st)))
       (unat (entry_data_index (root st ! i)))
       (file_offset (files_file st ! nat fd)) buf count") auto
  with assms(1,2) show ?thesis
    by (simp add: fs_write_def Let_def)
qed

lemma effective_count:
  assumes "pos < sz" and "pos + count < 2 ^ 64"
  shows "(if (pos + count) mod SIZE_MAX_plus_1 > sz then sz - pos else count)
           = min count (sz - pos)"
proof -
  from assms(2) have "(pos + count) mod SIZE_MAX_plus_1 = pos + count"
    by (simp add: SIZE_MAX_plus_1_def)
  with assms(1) show ?thesis by (auto simp: min_def)
qed

lemma fs_read_contiguous:
  assumes "\<not> bad_fd st fd" and "find_entry st fd = Some i"
    and "file_offset (files_file st ! nat fd) < unat (entry_file_size (root st ! i))"
    and "file_offset (files_file st ! nat fd) + count < 2 ^ 64"
    and "span_readable (disk st)
           (unat (data_index (super st)) + unat (entry_data_index (root st ! i)))
           (file_offset (files_file st ! nat fd))
           (min count (unat (entry_file_size (root st ! i))
                         - file_offset (files_file st ! nat fd)))"
  shows "fs_read st fd count =
     (int_of_size_t count,
      bytes_at (disk st)
        (unat (data_index (super st)) + unat (entry_data_index (root st ! i)))
        (file_offset (files_file st ! nat fd))
        (min count (unat (entry_file_size (root st ! i))
                      - file_offset (files_file st ! nat fd))),
      st\<lparr>files_file :=
           (files_file st)[nat fd := (files_file st ! nat fd)
              \<lparr>file_offset := file_offset (files_file st ! nat fd)
                  + min count (unat (entry_file_size (root st ! i))
                                 - file_offset (files_file st ! nat fd))\<rparr>]\<rparr>)"
proof -
  note e = effective_count [OF assms(3,4)]
  note l = read_loop_spec [OF assms(5), of "[]"]
  from assms(1,2,3) show ?thesis
    by (simp add: fs_read_def Let_def e l)
qed

lemma byte_at_written:
  assumes "span_readable d B off (length data)" and "off \<le> q" and "q < off + length data"
  shows "byte_at (written d B off data) B q = data ! (q - off)"
proof -
  from assms obtain b where b: "dev_blocks d (B + q div BLOCK_SIZE) = Some b"
    "length b = BLOCK_SIZE"
    unfolding span_readable_iff by blast
  have lt: "q mod BLOCK_SIZE < BLOCK_SIZE" by (simp add: BLOCK_SIZE_def)
  have "q div BLOCK_SIZE * BLOCK_SIZE + q mod BLOCK_SIZE = q" by (rule div_mult_mod_eq)
  with b lt assms(2,3) show ?thesis
    by (simp add: byte_at_def written_def)
qed

lemma written_nth:
  assumes "dev_blocks d blk = Some b" and "j < length b"
  shows "map_option (\<lambda>b. b ! j) (dev_blocks (written d B off data) blk) =
     Some (if B \<le> blk \<and> j < BLOCK_SIZE \<and> off \<le> (blk - B) * BLOCK_SIZE + j
              \<and> (blk - B) * BLOCK_SIZE + j < off + length data
           then data ! ((blk - B) * BLOCK_SIZE + j - off) else b ! j)"
  using assms by (simp add: written_def)

lemma vol_span_facts:
  "\<not> bad_fd vol_span 0" "find_entry vol_span 0 = Some 0"
  "file_offset (files_file vol_span ! nat 0) = 4095"
  "unat (data_index (super vol_span)) = 3"
  "unat (entry_data_index (root vol_span ! 0)) = 1"
  "unat (entry_file_size (root vol_span ! 0)) = 8192"
  "disk vol_span = dev_chain"
  "(vol_span\<lparr>fat := f\<rparr>) = vol_span\<lparr>fat := f\<rparr>"
  by (simp_all add: bad_fd_def find_entry_def vol_span_def vol_chain_def vol_empty_def
      entry_f2_def name16_f FS_OPEN_MAX_COUNT_def)

lemma dev_chain_span:
  assumes "off + n \<le> 6 * BLOCK_SIZE"
  shows "span_readable dev_chain 4 off n" "span_writable dev_chain 4 off n"
proof -
  have k: "q div BLOCK_SIZE < 6" if "q < off + n" for q
  proof -
    from that assms have "q < 6 * BLOCK_SIZE" by simp
    then show ?thesis by (simp add: less_mult_imp_div_less BLOCK_SIZE_def)
  qed
  show "span_readable dev_chain 4 off n"
    unfolding span_readable_iff
  proof (intro allI impI)
    fix q assume "off \<le> q \<and> q < off + n"
    then have "q div BLOCK_SIZE < 6" using k by simp
    then show "\<exists>b. dev_blocks dev_chain (4 + q div BLOCK_SIZE) = Some b \<and> length b = BLOCK_SIZE"
      by (simp add: dev_chain_def BLOCK_SIZE_def)
  qed
  show "span_writable dev_chain 4 off n"
    unfolding span_writable_iff
  proof (intro allI impI)
    fix q assume "off \<le> q \<and> q < off + n"
    then have "q div BLOCK_SIZE < 6" using k by simp
    then show "dev_writable dev_chain (4 + q div BLOCK_SIZE)"
      by (simp add: dev_chain_def)
  qed
qed

lemma upt_4095_2: "[4095..<4097] = [4095, 4096::nat]"
proof -
  have "[4095..<4097] = [4095..<Suc (Suc 4095)]" by simp
  also have "\<dots> = [4095, 4096::nat]" by (simp only: upt_rec [of 4095] upt_rec [of "Suc 4095"]) simp
  finally show ?thesis .
qed

lemma byte_at_dev_chain:
  "byte_at dev_chain 4 4095 = 0" "byte_at dev_chain 4 4096 = 0xAA"
  by (simp_all add: byte_at_def dev_chain_def BLOCK_SIZE_def)

lemma vol_2free_facts:
  "\<not> bad_fd vol_2free 0" "find_entry vol_2free 0 = Some 0"
  "file_offset (files_file vol_2free ! nat 0) = 0"
  "unat (data_index (super vol_2free)) = 3"
  "unat (entry_data_index (root vol_2free ! 0)) = 65535"
  "disk vol_2free = dev10"
  by (simp_all add: bad_fd_def find_entry_def vol_2free_def vol_empty_def handle_x_def
      entry_x_def name16_x FS_OPEN_MAX_COUNT_def)


subsection \<open>What write does to the FAT\<close>

text \<open>
  C1, as the code has it. \<^verbatim>\<open>fs_write\<close> never allocates: whatever the call, the
  superblock, every FAT entry and the \<^verbatim>\<open>data_index\<close> of every directory entry are as
  before. There is no short write: the call returns -1 (then the directory and the
  handles are unchanged too), or it returns \<^verbatim>\<open>count\<close> (converted to \<^verbatim>\<open>int\<close>) and the
  handle's offset has advanced by \<^verbatim>\<open>count\<close>. The bytes go to the blocks that follow
  \<^verbatim>\<open>data_index\<close> directly. With \<open>B = super.data_index + entry.data_index\<close> and the
  handle at \<open>pos\<close>: when every block that holds one of the bytes \<open>pos .. pos + count - 1\<close>
  of the sequence starting at block \<open>B\<close> can be read and written, and \<open>buf\<close> holds
  \<open>count < 2^31\<close> bytes, the call returns \<open>count\<close> itself and leaves the device with
  exactly these bytes replaced by the first \<open>count\<close> bytes of \<open>buf\<close>, and the file size
  raised to \<open>pos + count\<close> when that is larger; when one of these blocks cannot be read
  or cannot be written, the call returns -1. A write of 10000 bytes returns -1 or 10000.
\<close>

theorem write_never_allocates:
  assumes "fs_write st fd buf count = (r, st')"
    and "B = unat (data_index (super st)) + unat (entry_data_index (root st ! i))"
    and "pos = file_offset (files_file st ! nat fd)"
  shows "super st' = super st \<and> fat st' = fat st
     \<and> map entry_data_index (root st') = map entry_data_index (root st)
     \<and> (r = -1 \<and> root st' = root st \<and> files_file st' = files_file st
        \<or> r = int_of_size_t count
          \<and> files_file st' =
              (files_file st)[nat fd := (files_file st ! nat fd)
                 \<lparr>file_offset := file_offset (files_file st ! nat fd) + count\<rparr>])
     \<and> (count < 2 ^ 31 \<longrightarrow> r = -1 \<or> r = int count)
     \<and> (\<not> bad_fd st fd \<and> find_entry st fd = Some i
          \<and> span_readable (disk st) B pos count \<and> span_writable (disk st) B pos count
          \<and> count \<le> length buf \<and> count < 2 ^ 31
        \<longrightarrow> r = int count
            \<and> disk st' = written (disk st) B pos (take count buf)
            \<and> root st' =
                (if pos + count > unat (entry_file_size (root st ! i))
                 then (root st)[i := (root st ! i)\<lparr>entry_file_size := word_of_nat (pos + count)\<rparr>]
                 else root st))
     \<and> (\<not> bad_fd st fd \<and> find_entry st fd = Some i \<and> pos \<le> q \<and> q < pos + count
          \<and> (dev_blocks (disk st) (B + q div BLOCK_SIZE) = None
               \<or> \<not> dev_writable (disk st) (B + q div BLOCK_SIZE))
        \<longrightarrow> r = -1)
     \<and> (fst (fs_write st fd buf 10000) = -1 \<or> fst (fs_write st fd buf 10000) = 10000)"
proof -
  have a: "super st' = super st \<and> fat st' = fat st
     \<and> map entry_data_index (root st') = map entry_data_index (root st)
     \<and> (r = -1 \<and> root st' = root st \<and> files_file st' = files_file st
        \<or> r = int_of_size_t count
          \<and> files_file st' =
              (files_file st)[nat fd := (files_file st ! nat fd)
                 \<lparr>file_offset := file_offset (files_file st ! nat fd) + count\<rparr>])"
    using assms(1)
  proof (cases rule: fs_write_cases)
    case (failed d')
    then show ?thesis by simp
  next
    case (written i d')
    from written(1,4) show ?thesis by (simp add: map_update_same)
  qed
  have a': "r = -1 \<or> r = int count" if "count < 2 ^ 31"
    using a that by (auto simp: int_of_size_t_small)
  have b: "r = int count
            \<and> disk st' = written (disk st) B pos (take count buf)
            \<and> root st' =
                (if pos + count > unat (entry_file_size (root st ! i))
                 then (root st)[i := (root st ! i)\<lparr>entry_file_size := word_of_nat (pos + count)\<rparr>]
                 else root st)"
    if h: "\<not> bad_fd st fd" "find_entry st fd = Some i"
      "span_readable (disk st) B pos count" "span_writable (disk st) B pos count"
      "count \<le> length buf" "count < 2 ^ 31"
  proof -
    note w = fs_write_contiguous [OF h(1,2) assms(2,3) h(3,4,5)]
    from w assms(1) have "r = int_of_size_t count" by simp
    with h(6) have "r = int count" by (simp add: int_of_size_t_small)
    moreover from w assms(1) have "st' = snd (fs_write st fd buf count)" by simp
    ultimately show ?thesis unfolding w by simp
  qed
  have c: "r = -1"
    if h: "\<not> bad_fd st fd" "find_entry st fd = Some i" "pos \<le> q" "q < pos + count"
      "dev_blocks (disk st) (B + q div BLOCK_SIZE) = None
               \<or> \<not> dev_writable (disk st) (B + q div BLOCK_SIZE)"
    using fs_write_block_failure [OF h(1,2) assms(2,3) h(3,4,5), of buf] assms(1) by simp
  obtain r2 st2 where w: "fs_write st fd buf 10000 = (r2, st2)"
    by (cases "fs_write st fd buf 10000")
  then have "r2 = -1 \<or> r2 = 10000"
    by (cases rule: fs_write_cases) (simp_all add: int_of_size_t_10000)
  with w have d: "fst (fs_write st fd buf 10000) = -1 \<or> fst (fs_write st fd buf 10000) = 10000"
    by simp
  from a a' b c d show ?thesis by blast
qed

lemma write_2free: "fs_write vol_2free 0 (replicate 10000 1) 10000 = (-1, vol_2free)"
  by (simp add: fs_write_def bad_fd_def find_entry_def vol_2free_def vol_empty_def handle_x_def
      entry_x_def name16_x FS_OPEN_MAX_COUNT_def write_loop.simps [of _ _ _ _ _ 10000]
      BLOCK_SIZE_def block_read_def dev10_def)

text \<open>
  C1 as stated fails: on the volume with exactly two free data blocks, a write of 10000
  bytes to the empty file returns -1 and changes nothing: no FAT entry is allocated,
  the entry's \<^verbatim>\<open>data_index\<close> stays \<open>0xFFFF\<close> and its size stays 0.
\<close>

theorem write_at_capacity_fails:
  "fat_free vol_2free = 2 \<and> entry_data_index (root vol_2free ! 0) = 0xFFFF
   \<and> fs_write vol_2free 0 (replicate 10000 1) 10000 = (-1, vol_2free)"
  using write_2free
  by (simp add: fat_free_def vol_2free_def vol_empty_def entry_x_def)

theorem write_never_allocates_witness:
  "fst (fs_write vol_span 0 [1, 2] 2) = 2
   \<and> super (snd (fs_write vol_span 0 [1, 2] 2)) = super vol_span
   \<and> fat (snd (fs_write vol_span 0 [1, 2] 2)) = fat vol_span
   \<and> root (snd (fs_write vol_span 0 [1, 2] 2)) = root vol_span
   \<and> file_offset (files_file (snd (fs_write vol_span 0 [1, 2] 2)) ! 0) = 4097
   \<and> disk (snd (fs_write vol_span 0 [1, 2] 2)) = written dev_chain 4 4095 [1, 2]
   \<and> map_option (\<lambda>b. b ! 4095) (dev_blocks (disk (snd (fs_write vol_span 0 [1, 2] 2))) 4) = Some 1
   \<and> map_option (\<lambda>b. b ! 0) (dev_blocks (disk (snd (fs_write vol_span 0 [1, 2] 2))) 5) = Some 2
   \<and> map_option (\<lambda>b. b ! 1) (dev_blocks (disk (snd (fs_write vol_span 0 [1, 2] 2))) 5) = Some 0xAA
   \<and> fst (fs_write vol_2free 0 (replicate 10000 1) 10000) = -1"
proof -
  obtain r st' where e: "fs_write vol_span 0 [1, 2] 2 = (r, st')"
    by (cases "fs_write vol_span 0 [1, 2] 2")
  have B: "(4::nat) = unat (data_index (super vol_span))
                 + unat (entry_data_index (root vol_span ! 0))"
    by (simp add: vol_span_facts)
  have sp: "span_readable (disk vol_span) 4 4095 2" "span_writable (disk vol_span) 4 4095 2"
    using dev_chain_span [of 4095 2] by (simp_all add: vol_span_facts BLOCK_SIZE_def)
  have l2: "2 \<le> length [1::byte, 2]" "(2::nat) < 2 ^ 31" by simp_all
  note t = write_never_allocates [OF e B vol_span_facts(3) [symmetric], of 0]
  from t have s: "super st' = super vol_span" "fat st' = fat vol_span" by blast+
  from t vol_span_facts(1,2) sp l2 have c: "r = int 2"
    "disk st' = written (disk vol_span) 4 4095 (take 2 [1, 2])"
    "root st' =
       (if 4095 + 2 > unat (entry_file_size (root vol_span ! 0))
        then (root vol_span)[0 := (root vol_span ! 0)\<lparr>entry_file_size := word_of_nat (4095 + 2)\<rparr>]
        else root vol_span)"
    by blast+
  from c(1) have r2: "r = 2" by simp
  from t r2 have f: "files_file st' =
      (files_file vol_span)[nat 0 := (files_file vol_span ! nat 0)
         \<lparr>file_offset := file_offset (files_file vol_span ! nat 0) + 2\<rparr>]"
    by auto
  from c(3) have rt: "root st' = root vol_span" by (simp add: vol_span_facts(6))
  have len: "length (files_file vol_span) = 32" by (simp add: vol_span_def)
  from f len have off: "file_offset (files_file st' ! 0) = 4097"
    using vol_span_facts(3) by simp
  from c(2) have d: "disk st' = written dev_chain 4 4095 [1, 2]"
    by (simp add: vol_span_facts(7))
  have b4: "dev_blocks dev_chain 4 = Some (replicate 4096 0)"
    and b5: "dev_blocks dev_chain 5 = Some (replicate 4096 0xAA)"
    by (simp_all add: dev_chain_def)
  have p1: "map_option (\<lambda>b. b ! 4095) (dev_blocks (disk st') 4) = Some 1"
    unfolding d using written_nth [OF b4, of 4095 4 4095 "[1, 2]"]
    by (simp add: BLOCK_SIZE_def)
  have p2: "map_option (\<lambda>b. b ! 0) (dev_blocks (disk st') 5) = Some 2"
    unfolding d using written_nth [OF b5, of 0 4 4095 "[1, 2]"]
    by (simp add: BLOCK_SIZE_def)
  have p3: "map_option (\<lambda>b. b ! 1) (dev_blocks (disk st') 5) = Some 0xAA"
    unfolding d using written_nth [OF b5, of 1 4 4095 "[1, 2]"]
    by (simp add: BLOCK_SIZE_def)
  obtain r3 st3 where e3: "fs_write vol_2free 0 (replicate 10000 1) 10000 = (r3, st3)"
    by (cases "fs_write vol_2free 0 (replicate 10000 1) 10000")
  have B3: "(65538::nat) = unat (data_index (super vol_2free))
                 + unat (entry_data_index (root vol_2free ! 0))"
    by (simp add: vol_2free_facts)
  have none: "dev_blocks (disk vol_2free) (65538 + 0 div BLOCK_SIZE) = None"
    by (simp add: vol_2free_facts dev10_def)
  note t3 = write_never_allocates [OF e3 B3 vol_2free_facts(3) [symmetric], of 0]
  have q: "(0::nat) \<le> 0" "(0::nat) < 0 + 10000" by simp_all
  from t3 vol_2free_facts(1,2) none q have r3: "r3 = -1" by blast
  from e e3 r2 r3 s rt off d p1 p2 p3 show ?thesis by simp
qed


subsection \<open>Where read and write find a byte\<close>

text \<open>
  C2, as the code has it. For an open descriptor whose handle stands at \<open>pos\<close> and whose
  name matches directory entry \<open>i\<close>, byte \<open>b\<close> of the file is byte \<open>b\<close> of the sequence
  that starts at device block \<open>B = super.data_index + entry.data_index\<close>: it lies in block
  \<open>B + b div BLOCK_SIZE\<close>, at \<open>b mod BLOCK_SIZE\<close>. Every read of \<open>count\<close> bytes with \<open>pos\<close>
  below the file size delivers the bytes \<open>pos .. pos + n - 1\<close> of that sequence, where
  \<open>n = min count (file_size - pos)\<close>, when the blocks that hold them can be read, and
  moves the offset by \<open>n\<close>. Every write of \<open>count\<close> bytes replaces the bytes
  \<open>pos .. pos + count - 1\<close> of that sequence by those of \<open>buf\<close>, when the blocks that hold
  them can be read and written. The FAT is not consulted: with any other FAT, read and
  write return the same result, deliver the same bytes and leave the same device.
\<close>

theorem byte_located_contiguously:
  assumes "\<not> bad_fd st fd" and "find_entry st fd = Some i"
    and "B = unat (data_index (super st)) + unat (entry_data_index (root st ! i))"
    and "pos = file_offset (files_file st ! nat fd)"
  shows "(pos < unat (entry_file_size (root st ! i)) \<and> pos + count < 2 ^ 64
          \<and> n = min count (unat (entry_file_size (root st ! i)) - pos)
          \<and> span_readable (disk st) B pos n
        \<longrightarrow> fst (fs_read st fd count) = int_of_size_t count
            \<and> fst (snd (fs_read st fd count)) = map (byte_at (disk st) B) [pos..<pos + n]
            \<and> files_file (snd (snd (fs_read st fd count))) =
                (files_file st)[nat fd := (files_file st ! nat fd)\<lparr>file_offset := pos + n\<rparr>])
     \<and> (span_readable (disk st) B pos count \<and> span_writable (disk st) B pos count
          \<and> count \<le> length buf
        \<longrightarrow> fst (fs_write st fd buf count) = int_of_size_t count
            \<and> disk (snd (fs_write st fd buf count)) = written (disk st) B pos (take count buf)
            \<and> (\<forall>q. pos \<le> q \<and> q < pos + count \<longrightarrow>
                  byte_at (disk (snd (fs_write st fd buf count))) B q = buf ! (q - pos)))
     \<and> fst (fs_read (st\<lparr>fat := f\<rparr>) fd count) = fst (fs_read st fd count)
     \<and> fst (snd (fs_read (st\<lparr>fat := f\<rparr>) fd count)) = fst (snd (fs_read st fd count))
     \<and> fst (fs_write (st\<lparr>fat := f\<rparr>) fd buf count) = fst (fs_write st fd buf count)
     \<and> disk (snd (fs_write (st\<lparr>fat := f\<rparr>) fd buf count))
         = disk (snd (fs_write st fd buf count))"
proof -
  have rd: "fst (fs_read st fd count) = int_of_size_t count
            \<and> fst (snd (fs_read st fd count)) = map (byte_at (disk st) B) [pos..<pos + n]
            \<and> files_file (snd (snd (fs_read st fd count))) =
                (files_file st)[nat fd := (files_file st ! nat fd)\<lparr>file_offset := pos + n\<rparr>]"
    if h: "pos < unat (entry_file_size (root st ! i))" "pos + count < 2 ^ 64"
      "n = min count (unat (entry_file_size (root st ! i)) - pos)"
      "span_readable (disk st) B pos n"
  proof -
    from h assms(3,4) have
      "fs_read st fd count =
        (int_of_size_t count, bytes_at (disk st) B pos n,
         st\<lparr>files_file :=
           (files_file st)[nat fd := (files_file st ! nat fd)\<lparr>file_offset := pos + n\<rparr>]\<rparr>)"
      using fs_read_contiguous [OF assms(1,2), of count] by simp
    then show ?thesis by (simp add: bytes_at_def)
  qed
  have wr: "fst (fs_write st fd buf count) = int_of_size_t count
            \<and> disk (snd (fs_write st fd buf count)) = written (disk st) B pos (take count buf)
            \<and> (\<forall>q. pos \<le> q \<and> q < pos + count \<longrightarrow>
                  byte_at (disk (snd (fs_write st fd buf count))) B q = buf ! (q - pos))"
    if h: "span_readable (disk st) B pos count" "span_writable (disk st) B pos count"
      "count \<le> length buf"
  proof -
    note w = fs_write_contiguous [OF assms h]
    from h(3) have len: "length (take count buf) = count" by simp
    have "byte_at (written (disk st) B pos (take count buf)) B q = buf ! (q - pos)"
      if "pos \<le> q" "q < pos + count" for q
      using byte_at_written [of "disk st" B pos "take count buf" q] h(1) that len by simp
    then show ?thesis unfolding w by simp
  qed
  have ft: "fst (fs_read (st\<lparr>fat := f\<rparr>) fd count) = fst (fs_read st fd count)"
    "fst (snd (fs_read (st\<lparr>fat := f\<rparr>) fd count)) = fst (snd (fs_read st fd count))"
    "fst (fs_write (st\<lparr>fat := f\<rparr>) fd buf count) = fst (fs_write st fd buf count)"
    "disk (snd (fs_write (st\<lparr>fat := f\<rparr>) fd buf count)) = disk (snd (fs_write st fd buf count))"
    by (simp_all add: fs_read_fat fs_write_fat split: prod.splits)
  from rd wr ft show ?thesis by blast
qed

lemma chain_pos_1:
  "spec_chain (fat vol_chain_open) 7 (entry_data_index (root vol_chain_open ! 0)) ! 1 = 3"
  by (simp add: vol_chain_open_def vol_chain_def vol_empty_def entry_f2_def spec_chain_numeral)

lemma vol_chain_open_facts:
  "\<not> bad_fd vol_chain_open 0" "find_entry vol_chain_open 0 = Some 0"
  "file_offset (files_file vol_chain_open ! nat 0) = 4096"
  "unat (data_index (super vol_chain_open)) = 3"
  "unat (entry_data_index (root vol_chain_open ! 0)) = 1"
  "unat (entry_file_size (root vol_chain_open ! 0)) = 8192"
  "block_read (disk vol_chain_open) 5 = Some (replicate 4096 0xAA)"
  "block_read (disk vol_chain_open) 6 = Some (replicate 4096 0xBB)"
  "dev_writable (disk vol_chain_open) 5"
  by (simp_all add: bad_fd_def find_entry_def vol_chain_open_def vol_chain_def vol_empty_def
      entry_f2_def name16_f FS_OPEN_MAX_COUNT_def block_read_def dev_chain_def)

theorem byte_located_contiguously_witness:
  "fst (fs_read vol_span 0 2) = 2
   \<and> fst (snd (fs_read vol_span 0 2)) = [0, 0xAA]
   \<and> file_offset (files_file (snd (snd (fs_read vol_span 0 2))) ! 0) = 4097
   \<and> fst (fs_write vol_span 0 [1, 2] 2) = 2
   \<and> disk (snd (fs_write vol_span 0 [1, 2] 2)) = written dev_chain 4 4095 [1, 2]
   \<and> byte_at (disk (snd (fs_write vol_span 0 [1, 2] 2))) 4 4095 = 1
   \<and> byte_at (disk (snd (fs_write vol_span 0 [1, 2] 2))) 4 4096 = 2
   \<and> fst (snd (fs_read (vol_span\<lparr>fat := []\<rparr>) 0 2)) = [0, 0xAA]"
proof -
  have B: "(4::nat) = unat (data_index (super vol_span))
                 + unat (entry_data_index (root vol_span ! 0))"
    by (simp add: vol_span_facts)
  have n: "(2::nat) = min 2 (unat (entry_file_size (root vol_span ! 0)) - 4095)"
    by (simp add: vol_span_facts)
  have sp: "span_readable (disk vol_span) 4 4095 2" "span_writable (disk vol_span) 4 4095 2"
    using dev_chain_span [of 4095 2] by (simp_all add: vol_span_facts BLOCK_SIZE_def)
  note t = byte_located_contiguously [OF vol_span_facts(1,2) B vol_span_facts(3) [symmetric],
      of 2 2 "[1, 2]" "[]"]
  have i2: "int_of_size_t 2 = 2" by (simp add: int_of_size_t_def)
  from vol_span_facts(6) have lt: "4095 < unat (entry_file_size (root vol_span ! 0))"
    and lt2: "4095 + 2 < (2::nat) ^ 64" by simp_all
  from t n sp(1) lt lt2 have r: "fst (fs_read vol_span 0 2) = int_of_size_t 2"
    "fst (snd (fs_read vol_span 0 2)) = map (byte_at (disk vol_span) 4) [4095..<4095 + 2]"
    "files_file (snd (snd (fs_read vol_span 0 2))) =
       (files_file vol_span)[nat 0 := (files_file vol_span ! nat 0)\<lparr>file_offset := 4095 + 2\<rparr>]"
    by blast+
  have l2: "2 \<le> length [1::byte, 2]" by simp
  from t sp l2 have w: "fst (fs_write vol_span 0 [1, 2] 2) = int_of_size_t 2"
    "disk (snd (fs_write vol_span 0 [1, 2] 2)) = written (disk vol_span) 4 4095 (take 2 [1, 2])"
    "\<forall>q. 4095 \<le> q \<and> q < 4095 + 2 \<longrightarrow>
        byte_at (disk (snd (fs_write vol_span 0 [1, 2] 2))) 4 q = [1, 2] ! (q - 4095)"
    by blast+
  from t have f: "fst (snd (fs_read (vol_span\<lparr>fat := []\<rparr>) 0 2)) = fst (snd (fs_read vol_span 0 2))"
    by simp
  have len: "length (files_file vol_span) = 32" by (simp add: vol_span_def)
  from w(3) [rule_format, of 4095]
  have w1: "byte_at (disk (snd (fs_write vol_span 0 [1, 2] 2))) 4 4095 = 1" by simp
  from w(3) [rule_format, of 4096]
  have w2: "byte_at (disk (snd (fs_write vol_span 0 [1, 2] 2))) 4 4096 = 2" by simp
  from r(2) have r2: "fst (snd (fs_read vol_span 0 2)) = [0, 0xAA]"
    by (simp add: vol_span_facts(7) upt_4095_2 byte_at_dev_chain)
  from r(3) len have r3: "file_offset (files_file (snd (snd (fs_read vol_span 0 2))) ! 0) = 4097"
    by simp
  from w(2) have w0: "disk (snd (fs_write vol_span 0 [1, 2] 2)) = written dev_chain 4 4095 [1, 2]"
    by (simp add: vol_span_facts(7))
  from r(1) r2 r3 w(1) w0 w1 w2 f show ?thesis by (simp only: i2 simp_thms)
qed

lemma read_chain_open:
  "fs_read vol_chain_open 0 1
     = (1, [0xAA],
        vol_chain_open\<lparr>files_file :=
          \<lparr>file_filename = name16 ''f'', file_offset = 4097\<rparr> # replicate 31 zero_file\<rparr>)"
  by (simp add: fs_read_def find_entry_def bad_fd_def vol_chain_open_def vol_chain_def
      vol_empty_def entry_f2_def name16_f FS_OPEN_MAX_COUNT_def SIZE_MAX_plus_1_def
      read_loop.simps BLOCK_SIZE_def block_read_def dev_chain_def int_of_size_t_def)

text \<open>
  C2 as stated fails: the file's chain is 1, 3, so chain position 1 of the specification
  is data block 3, device block 6, filled with \<open>0xBB\<close>. The read at position 4096
  delivers \<open>0xAA\<close>, the content of device block 5 (data block \<open>1 + 1\<close>).
\<close>

theorem read_ignores_fat_chain:
  "spec_chain (fat vol_chain_open) 7 (entry_data_index (root vol_chain_open ! 0)) ! 1 = 3
   \<and> block_read (disk vol_chain_open) (unat (data_index (super vol_chain_open)) + 3)
       = Some (replicate 4096 0xBB)
   \<and> file_offset (files_file vol_chain_open ! 0) = 4096
   \<and> fst (snd (fs_read vol_chain_open 0 1)) = [0xAA]"
  using chain_pos_1 vol_chain_open_facts read_chain_open by simp


subsection \<open>Mount\<close>















































subsection \<open>The value returned by read, in general\<close>

text \<open>
  When the loop of \<^verbatim>\<open>fs_read\<close> ends without a failed block read, \<^verbatim>\<open>reading\<close> is 0. So
  \<^verbatim>\<open>fs_read\<close> returns -1, 0 or \<^verbatim>\<open>count\<close> itself, whatever the number of bytes delivered.
  A count below \<open>2^31\<close> is returned unchanged by the conversion to \<^verbatim>\<open>int\<close>.
\<close>

lemma read_loop_reading:
  "read_loop d sdi edi offset reading out = (True, offset', reading', out') \<Longrightarrow>
   reading' = 0 \<and> offset' = offset + reading"
proof (induction d sdi edi offset reading out arbitrary: rule: read_loop.induct)
  case (1 d sdi edi offset reading out)
  show ?case
  proof (cases "reading = 0")
    case True
    with "1.prems" show ?thesis by (simp add: read_loop.simps)
  next
    case False
    define rs where "rs = (if BLOCK_SIZE - offset mod BLOCK_SIZE > reading then reading
                else BLOCK_SIZE - offset mod BLOCK_SIZE)"
    have rs: "rs \<le> reading" by (simp add: rs_def)
    from "1.prems" False obtain buffer where
      r: "block_read d (sdi + (edi + offset div BLOCK_SIZE)) = Some buffer" and
      l: "read_loop d sdi edi (offset + rs) (reading - rs)
            (out @ take rs (drop (offset mod BLOCK_SIZE) buffer)) = (True, offset', reading', out')"
      by (subst (asm) read_loop.simps) (auto simp: Let_def rs_def split: option.splits)
    have "reading' = 0 \<and> offset' = offset + rs + (reading - rs)"
      by (rule "1.IH" [OF False refl refl rs_def r l])
    with rs show ?thesis by simp
  qed
qed

lemma fs_read_result:
  "fst (fs_read st fd count) = -1 \<or> fst (fs_read st fd count) = 0
   \<or> fst (fs_read st fd count) = int_of_size_t count"
proof (cases "bad_fd st fd")
  case True
  then show ?thesis by (simp add: fs_read_def)
next
  case False
  show ?thesis
  proof (cases "find_entry st fd")
    case None
    with False show ?thesis by (simp add: fs_read_def)
  next
    case (Some i)
    define reading where "reading =
      (if (file_offset (files_file st ! nat fd) + count) mod SIZE_MAX_plus_1
            > unat (entry_file_size (root st ! i))
       then unat (entry_file_size (root st ! i)) - file_offset (files_file st ! nat fd)
       else count)"
    obtain ok off' r' out where l:
      "read_loop (disk st) (unat (data_index (super st))) (unat (entry_data_index (root st ! i)))
         (file_offset (files_file st ! nat fd)) reading [] = (ok, off', r', out)"
      by (cases "read_loop (disk st) (unat (data_index (super st)))
         (unat (entry_data_index (root st ! i))) (file_offset (files_file st ! nat fd)) reading []")
    show ?thesis
    proof (cases ok)
      case True
      with l have "r' = 0" by (simp add: read_loop_reading)
      with False Some l True show ?thesis
        by (simp add: fs_read_def Let_def reading_def)
    next
      case False
      with \<open>\<not> bad_fd st fd\<close> Some l show ?thesis
        by (simp add: fs_read_def Let_def reading_def)
    qed
  qed
qed

end
